theory Spec2Isabelle
  imports Complex_Main "HOL-Library.Word" "HOL-Library.Monad_Syntax"
begin

unbundle bit_operations_syntax

section \<open>Machine types of \<^verbatim>\<open>backward_references.c\<close>\<close>

text \<open>
  \<^verbatim>\<open>size_t\<close> is taken as a 64-bit unsigned word, \<^verbatim>\<open>uint32_t\<close> and \<^verbatim>\<open>int\<close> as 32-bit words
  (an \<^verbatim>\<open>int\<close> is read signed where the source converts it to \<^verbatim>\<open>size_t\<close>). A \<^verbatim>\<open>float\<close> is
  an IEEE 754 binary32 value: a real number, an infinity or NaN, the two zeros being one
  value. A \<^verbatim>\<open>double\<close> that is converted to \<^verbatim>\<open>float\<close>, and the exact sum or difference of two
  \<^verbatim>\<open>float\<close> values, is rounded to the nearest binary32 value, ties to even. The cost
  differences in the start-position queue are only compared, and are real numbers.

  An array of run-time size (the nodes, the histograms) is a list, and an access outside
  it gives \<open>None\<close>, as do a read of the inactive member of the node's union and a loop that
  does not return. The four-entry distance caches and the eight-entry queue are lists
  that are indexed directly; the theorems state their length.
\<close>

type_synonym size_t = "64 word"
type_synonym uint32_t = "32 word"
type_synonym uint16_t = "16 word"
type_synonym uint8_t = "8 word"
type_synonym c_int = "32 word"

datatype c_float = Finite real | PosInfinity | NegInfinity | NaN

definition kInfinity :: c_float where
  "kInfinity = PosInfinity"

text \<open>Rounding of a real number to an integer, ties to even.\<close>

definition round_to_even :: "real \<Rightarrow> int" where
  "round_to_even r =
     (let f = \<lfloor>r\<rfloor>; d = r - of_int f
      in if d < 1 / 2 then f else if 1 / 2 < d then f + 1 else if even f then f else f + 1)"

text \<open>The number of binary digits of a positive integer.\<close>

function bit_length :: "int \<Rightarrow> nat" where
  "bit_length n = (if n \<le> 0 then 0 else Suc (bit_length (n div 2)))"
  by pat_completeness auto

termination
  by (relation "measure nat") auto

declare bit_length.simps [simp del]

text \<open>
  The conversion \<^verbatim>\<open>(float)x\<close>. The magnitude is scaled by \<open>2^149\<close>, which makes the smallest
  subnormal 1; a scaled magnitude below \<open>2^(24 + j)\<close> has 24 significant bits when it is a
  multiple of \<open>2^j\<close>; a result of \<open>2^128\<close> or more is an infinity.
\<close>

definition float_cast :: "real \<Rightarrow> c_float" where
  "float_cast x =
     (let a = \<bar>x\<bar> * 2 ^ 149;
          j = bit_length \<lfloor>a\<rfloor> - 24;
          y = of_int (round_to_even (a / 2 ^ j)) * 2 ^ j / 2 ^ 149
      in if 2 ^ 128 \<le> y then (if 0 < x then PosInfinity else NegInfinity)
         else Finite (if x < 0 then - y else y))"

fun float_neg :: "c_float \<Rightarrow> c_float" where
  "float_neg (Finite a) = Finite (- a)"
| "float_neg PosInfinity = NegInfinity"
| "float_neg NegInfinity = PosInfinity"
| "float_neg NaN = NaN"

fun float_add :: "c_float \<Rightarrow> c_float \<Rightarrow> c_float" where
  "float_add (Finite a) (Finite b) = float_cast (a + b)"
| "float_add NaN b = NaN"
| "float_add a NaN = NaN"
| "float_add PosInfinity NegInfinity = NaN"
| "float_add NegInfinity PosInfinity = NaN"
| "float_add PosInfinity b = PosInfinity"
| "float_add a PosInfinity = PosInfinity"
| "float_add NegInfinity b = NegInfinity"
| "float_add a NegInfinity = NegInfinity"

definition float_sub :: "c_float \<Rightarrow> c_float \<Rightarrow> c_float" where
  "float_sub a b = float_add a (float_neg b)"

fun float_less :: "c_float \<Rightarrow> c_float \<Rightarrow> bool" where
  "float_less (Finite a) (Finite b) = (a < b)"
| "float_less NaN b = False"
| "float_less a NaN = False"
| "float_less a NegInfinity = False"
| "float_less PosInfinity b = False"
| "float_less NegInfinity b = True"
| "float_less a PosInfinity = True"

definition BROTLI_UINT32_MAX :: uint32_t where
  "BROTLI_UINT32_MAX = 0xFFFFFFFF"

section \<open>Zopfli nodes\<close>

text \<open>The union \<^verbatim>\<open>u\<close> of a node holds either the cost or the \<^verbatim>\<open>next\<close> offset.\<close>

datatype cost_or_next = Cost c_float | Next uint32_t

record ZopfliNode =
  node_length :: uint32_t
  node_distance :: uint32_t
  node_insert_length :: uint32_t
  node_u :: cost_or_next

fun u_cost :: "cost_or_next \<Rightarrow> c_float option" where
  "u_cost (Cost c) = Some c"
| "u_cost (Next w) = None"

fun u_next :: "cost_or_next \<Rightarrow> uint32_t option" where
  "u_next (Next w) = Some w"
| "u_next (Cost c) = None"

definition stub :: ZopfliNode where
  "stub = \<lparr> node_length = 1, node_distance = 0, node_insert_length = 0,
            node_u = Cost kInfinity \<rparr>"

definition BrotliInitZopfliNodes :: "ZopfliNode list \<Rightarrow> size_t \<Rightarrow> ZopfliNode list option" where
  "BrotliInitZopfliNodes array len =
     (if unat len \<le> length array
      then Some (replicate (unat len) stub @ drop (unat len) array)
      else None)"

definition ZopfliNodeCopyLength :: "ZopfliNode \<Rightarrow> uint32_t" where
  "ZopfliNodeCopyLength self = node_length self AND 0xffffff"

definition ZopfliNodeLengthCode :: "ZopfliNode \<Rightarrow> uint32_t" where
  "ZopfliNodeLengthCode self =
     (let modifier = drop_bit 24 (node_length self)
      in ZopfliNodeCopyLength self + 9 - modifier)"

definition ZopfliNodeCopyDistance :: "ZopfliNode \<Rightarrow> uint32_t" where
  "ZopfliNodeCopyDistance self = node_distance self AND 0x1ffffff"

definition ZopfliNodeDistanceCode :: "ZopfliNode \<Rightarrow> uint32_t" where
  "ZopfliNodeDistanceCode self =
     (let short_code = drop_bit 25 (node_distance self)
      in if short_code = 0 then ZopfliNodeCopyDistance self + 15 else short_code - 1)"


text \<open>
  \<^verbatim>\<open>UpdateZopfliNode\<close> writes the node at \<^verbatim>\<open>pos + len\<close>; the three integer fields are
  the \<^verbatim>\<open>size_t\<close> expressions of the source cut to 32 bits.
\<close>

definition UpdateZopfliNode ::
  "ZopfliNode list \<Rightarrow> size_t \<Rightarrow> size_t \<Rightarrow> size_t \<Rightarrow> size_t \<Rightarrow> size_t \<Rightarrow> size_t \<Rightarrow> c_float
     \<Rightarrow> ZopfliNode list option" where
  "UpdateZopfliNode nodes pos start_pos len len_code dist_v short_code cost =
     (let next = pos + len
      in if unat next < length nodes
         then Some (nodes[unat next :=
                \<lparr> node_length = ucast (len OR push_bit 24 (len + 9 - len_code)),
                  node_distance = ucast (dist_v OR push_bit 25 short_code),
                  node_insert_length = ucast (pos - start_pos),
                  node_u = Cost cost \<rparr>])
         else None)"

section \<open>Histogram cost model\<close>

text \<open>
  \<^verbatim>\<open>FastLog2\<close> is declared in \<^verbatim>\<open>fast_log.h\<close>, which is not part of the sources at hand; it is
  a parameter, and the \<^verbatim>\<open>double\<close> it returns is a real number. \<^verbatim>\<open>SetCost\<close> fills
  \<^verbatim>\<open>cost[0..histogram_size)\<close>.
\<close>

definition SetCost ::
  "(size_t \<Rightarrow> real) \<Rightarrow> uint32_t list \<Rightarrow> size_t \<Rightarrow> c_float list \<Rightarrow> c_float list option" where
  "SetCost FastLog2 histogram histogram_size cost =
     (if unat histogram_size \<le> length histogram \<and> unat histogram_size \<le> length cost
      then
        (let sum = foldl (\<lambda>s h. s + ucast h) (0::size_t) (take (unat histogram_size) histogram);
             log2sum = float_cast (FastLog2 sum)
         in Some (map (\<lambda>h. if h = 0 then float_add log2sum (Finite 2)
                            else (let c = float_sub log2sum (float_cast (FastLog2 (ucast h)))
                                  in if float_less c (Finite 1) then Finite 1 else c))
                      (take (unat histogram_size) histogram)
                  @ drop (unat histogram_size) cost))
      else None)"

text \<open>
  The \<^verbatim>\<open>Command\<close> structure is declared in \<^verbatim>\<open>command.h\<close>; the source reads the three
  fields \<^verbatim>\<open>insert_len_\<close>, \<^verbatim>\<open>cmd_prefix_\<close> and \<^verbatim>\<open>dist_prefix_\<close> and calls \<^verbatim>\<open>CommandCopyLen\<close>
  and \<^verbatim>\<open>InitCommand\<close>, which are parameters here.
\<close>

record Command =
  cmd_insert_len :: uint32_t
  cmd_copy_len :: uint32_t
  cmd_dist_extra :: uint32_t
  cmd_cmd_prefix :: uint16_t
  cmd_dist_prefix :: uint16_t

definition incr :: "uint32_t list \<Rightarrow> nat \<Rightarrow> uint32_t list option" where
  "incr histogram i =
     (if i < length histogram then Some (histogram[i := histogram ! i + 1]) else None)"

text \<open>The inner loop over \<^verbatim>\<open>j\<close>: one literal of the insert run per step.\<close>

fun count_literals ::
  "(size_t \<Rightarrow> uint8_t) \<Rightarrow> size_t \<Rightarrow> size_t \<Rightarrow> nat \<Rightarrow> size_t \<Rightarrow> uint32_t list
     \<Rightarrow> uint32_t list option" where
  "count_literals ringbuffer ringbuffer_mask pos 0 j histogram_literal = Some histogram_literal"
| "count_literals ringbuffer ringbuffer_mask pos (Suc n) j histogram_literal =
     (case incr histogram_literal (unat (ringbuffer ((pos + j) AND ringbuffer_mask))) of
        None \<Rightarrow> None
      | Some h \<Rightarrow> count_literals ringbuffer ringbuffer_mask pos n (j + 1) h)"

text \<open>
  The first loop of \<^verbatim>\<open>ZopfliCostModelSetFromCommands\<close>: the three histograms of the
  commands \<^verbatim>\<open>commands[0..num_commands)\<close>, here the list \<open>commands\<close>.
\<close>

fun ZopfliCostModelSetFromCommands_histograms ::
  "(Command \<Rightarrow> uint32_t) \<Rightarrow> (size_t \<Rightarrow> uint8_t) \<Rightarrow> size_t \<Rightarrow> Command list \<Rightarrow> size_t
     \<Rightarrow> uint32_t list \<times> uint32_t list \<times> uint32_t list
     \<Rightarrow> (uint32_t list \<times> uint32_t list \<times> uint32_t list) option" where
  "ZopfliCostModelSetFromCommands_histograms CommandCopyLen ringbuffer ringbuffer_mask [] pos hs =
     Some hs"
| "ZopfliCostModelSetFromCommands_histograms CommandCopyLen ringbuffer ringbuffer_mask (c # cs) pos
       (histogram_literal, histogram_cmd, histogram_dist) =
     (let inslength = ucast (cmd_insert_len c) :: size_t;
          copylength = ucast (CommandCopyLen c) :: size_t;
          distcode = ucast (cmd_dist_prefix c) :: size_t;
          cmdcode = ucast (cmd_cmd_prefix c) :: size_t
      in case incr histogram_cmd (unat cmdcode) of
           None \<Rightarrow> None
         | Some h_cmd \<Rightarrow>
             (case (if cmdcode \<ge> 128 then incr histogram_dist (unat distcode)
                    else Some histogram_dist) of
                None \<Rightarrow> None
              | Some h_dist \<Rightarrow>
                  (case count_literals ringbuffer ringbuffer_mask pos (unat inslength) 0
                          histogram_literal of
                     None \<Rightarrow> None
                   | Some h_lit \<Rightarrow>
                       ZopfliCostModelSetFromCommands_histograms CommandCopyLen ringbuffer
                         ringbuffer_mask cs (pos + (inslength + copylength)) (h_lit, h_cmd, h_dist))))"

record ZopfliCostModel =
  model_cost_cmd :: "c_float list"
  model_cost_dist :: "c_float list"
  model_literal_costs :: "c_float list"
  model_min_cost_cmd :: c_float
  model_num_bytes :: size_t

text \<open>\<^verbatim>\<open>BROTLI_MIN(float, a, b)\<close>, which is \<^verbatim>\<open>a < b ? a : b\<close>.\<close>

definition float_min :: "c_float \<Rightarrow> c_float \<Rightarrow> c_float" where
  "float_min a b = (if float_less a b then a else b)"

text \<open>The last loop: the running sums of the fitted literal costs.\<close>

fun literal_costs_loop ::
  "(size_t \<Rightarrow> uint8_t) \<Rightarrow> size_t \<Rightarrow> size_t \<Rightarrow> c_float list \<Rightarrow> nat \<Rightarrow> size_t \<Rightarrow> c_float list
     \<Rightarrow> c_float list option" where
  "literal_costs_loop ringbuffer ringbuffer_mask position cost_literal 0 i literal_costs =
     Some literal_costs"
| "literal_costs_loop ringbuffer ringbuffer_mask position cost_literal (Suc n) i literal_costs =
     (let b = unat (ringbuffer ((position + i) AND ringbuffer_mask))
      in if unat i + 1 < length literal_costs \<and> b < length cost_literal
         then literal_costs_loop ringbuffer ringbuffer_mask position cost_literal n (i + 1)
                (literal_costs[unat i + 1 :=
                   float_add (literal_costs ! unat i) (cost_literal ! b)])
         else None)"

text \<open>
  The sizes of the three symbol alphabets come from \<^verbatim>\<open>constants.h\<close>; they are the
  parameters \<open>num_literal\<close>, \<open>num_command\<close> and \<open>num_distance\<close>.
\<close>

definition ZopfliCostModelSetFromCommands ::
  "(size_t \<Rightarrow> real) \<Rightarrow> (Command \<Rightarrow> uint32_t) \<Rightarrow> nat \<Rightarrow> nat \<Rightarrow> nat
     \<Rightarrow> ZopfliCostModel \<Rightarrow> size_t \<Rightarrow> (size_t \<Rightarrow> uint8_t) \<Rightarrow> size_t \<Rightarrow> Command list \<Rightarrow> size_t
     \<Rightarrow> ZopfliCostModel option" where
  "ZopfliCostModelSetFromCommands FastLog2 CommandCopyLen num_literal num_command num_distance
       self position ringbuffer ringbuffer_mask commands last_insert_len =
     do {
       (histogram_literal, histogram_cmd, histogram_dist) \<leftarrow>
         ZopfliCostModelSetFromCommands_histograms CommandCopyLen ringbuffer ringbuffer_mask
           commands (position - last_insert_len)
           (replicate num_literal 0, replicate num_command 0, replicate num_distance 0);
       cost_literal \<leftarrow>
         SetCost FastLog2 histogram_literal (of_nat num_literal) (replicate num_literal (Finite 0));
       cost_cmd \<leftarrow> SetCost FastLog2 histogram_cmd (of_nat num_command) (model_cost_cmd self);
       cost_dist \<leftarrow> SetCost FastLog2 histogram_dist (of_nat num_distance) (model_cost_dist self);
       literal_costs \<leftarrow>
         (if model_literal_costs self = [] then None
          else literal_costs_loop ringbuffer ringbuffer_mask position cost_literal
                 (unat (model_num_bytes self)) 0 ((model_literal_costs self)[0 := Finite 0]));
       Some (self\<lparr> model_cost_cmd := cost_cmd,
                   model_cost_dist := cost_dist,
                   model_literal_costs := literal_costs,
                   model_min_cost_cmd :=
                     foldl float_min kInfinity
                       (take num_command cost_cmd) \<rparr>)
     }"

section \<open>Distance short codes\<close>

text \<open>
  \<^verbatim>\<open>brotlirep\<close> is the global \<^verbatim>\<open>extern int\<close> of the source. The tables
  \<^verbatim>\<open>kDistanceCacheIndex\<close> and \<^verbatim>\<open>kDistanceCacheOffset\<close> are declared in a header that is not part
  of the sources at hand; they are parameters.
\<close>

text \<open>Modelled from the spec: \<^verbatim>\<open>NUM_SHORT_CODES = 16\<close>, the value of
  \<^verbatim>\<open>BROTLI_NUM_DISTANCE_SHORT_CODES\<close> of \<^verbatim>\<open>constants.h\<close>.\<close>

definition BROTLI_NUM_DISTANCE_SHORT_CODES :: nat where
  "BROTLI_NUM_DISTANCE_SHORT_CODES = 16"

definition kLimits :: "size_t list" where
  "kLimits = [0, 0, 0, 0, 6, 6, 11, 11, 11, 11, 11, 11, 12, 12, 12, 12]"

text \<open>
  The loop over \<^verbatim>\<open>k\<close>: \<open>Some k\<close> is the \<^verbatim>\<open>return k\<close> inside it, \<open>None\<close> its normal end.
  The \<^verbatim>\<open>int\<close> sum of cache entry and offset wraps at 32 bits and is then sign-extended
  to \<^verbatim>\<open>size_t\<close>.
\<close>

function ComputeDistanceCode_loop ::
  "uint32_t list \<Rightarrow> c_int list \<Rightarrow> size_t \<Rightarrow> c_int list \<Rightarrow> nat \<Rightarrow> size_t option" where
  "ComputeDistanceCode_loop kDistanceCacheIndex kDistanceCacheOffset distance dist_cache k =
     (if k < BROTLI_NUM_DISTANCE_SHORT_CODES
      then
        (let idx = ucast (kDistanceCacheIndex ! k) :: size_t;
             candidate = scast (dist_cache ! unat idx + kDistanceCacheOffset ! k) :: size_t
         in if distance = candidate \<and> distance \<ge> kLimits ! k
            then Some (of_nat k)
            else ComputeDistanceCode_loop kDistanceCacheIndex kDistanceCacheOffset distance
                   dist_cache (k + 1))
      else None)"
  by pat_completeness auto
termination
  by (relation "measure (\<lambda>(ki, ko, d, dc, k). BROTLI_NUM_DISTANCE_SHORT_CODES - k)") auto

declare ComputeDistanceCode_loop.simps [simp del]

definition ComputeDistanceCode ::
  "c_int \<Rightarrow> uint32_t list \<Rightarrow> c_int list \<Rightarrow> size_t \<Rightarrow> size_t \<Rightarrow> int \<Rightarrow> c_int list \<Rightarrow> size_t" where
  "ComputeDistanceCode brotlirep kDistanceCacheIndex kDistanceCacheOffset
       distance max_distance quality dist_cache =
     (if brotlirep \<noteq> 0 \<and> distance \<le> max_distance
      then
        (if distance = scast (dist_cache ! 0) then 0
         else if distance = scast (dist_cache ! 1) then 1
         else if distance = scast (dist_cache ! 2) then 2
         else if distance = scast (dist_cache ! 3) then 3
         else if quality > 3 \<and> distance \<ge> 6
         then (case ComputeDistanceCode_loop kDistanceCacheIndex kDistanceCacheOffset distance
                      dist_cache 4 of
                 Some k \<Rightarrow> k
               | None \<Rightarrow> distance + 15)
         else distance + 15)
      else distance + 15)"

section \<open>Start-position queue\<close>

record PosData =
  pd_pos :: size_t
  pd_distance_cache :: "c_int list"
  pd_costdiff :: real

record StartPosQueue =
  queue_q :: "PosData list"
  queue_idx :: size_t

definition InitStartPosQueue :: "StartPosQueue \<Rightarrow> StartPosQueue" where
  "InitStartPosQueue self = self\<lparr> queue_idx := 0 \<rparr>"

definition StartPosQueueSize :: "StartPosQueue \<Rightarrow> size_t" where
  "StartPosQueueSize self = min (queue_idx self) 8"

definition BROTLI_SWAP :: "'a list \<Rightarrow> nat \<Rightarrow> nat \<Rightarrow> 'a list" where
  "BROTLI_SWAP a i j = (let t = a ! i; a1 = a[i := a ! j] in a1[j := t])"

function StartPosQueuePush_loop ::
  "PosData list \<Rightarrow> size_t \<Rightarrow> size_t \<Rightarrow> size_t \<Rightarrow> PosData list" where
  "StartPosQueuePush_loop q offset i len =
     (if i < len
      then StartPosQueuePush_loop
             (if pd_costdiff (q ! unat (offset AND 7)) > pd_costdiff (q ! unat ((offset + 1) AND 7))
              then BROTLI_SWAP q (unat (offset AND 7)) (unat ((offset + 1) AND 7))
              else q)
             (offset + 1) (i + 1) len
      else q)"
  by pat_completeness auto
termination
proof (relation "measure (\<lambda>(q, offset, i, len). unat len - unat i)")
  show "wf (measure (\<lambda>(q, offset, i, len). unat len - unat i))"
    by simp
next
  fix q :: "PosData list" and offset i len :: size_t
  assume a: "i < len"
  then have "unat i + 1 < 2 ^ 64"
    using unsigned_less[of len, where 'a = nat] by (simp add: word_less_nat_alt)
  then have "unat (i + 1) = unat i + 1"
    by (simp add: unat_add_lem[THEN iffD1])
  with a show "((if pd_costdiff (q ! unat (offset AND 7)) > pd_costdiff (q ! unat ((offset + 1) AND 7))
              then BROTLI_SWAP q (unat (offset AND 7)) (unat ((offset + 1) AND 7))
              else q, offset + 1, i + 1, len), (q, offset, i, len))
        \<in> measure (\<lambda>(q, offset, i, len). unat len - unat i)"
    by (simp add: word_less_nat_alt)
qed

declare StartPosQueuePush_loop.simps [simp del]

definition StartPosQueuePush :: "StartPosQueue \<Rightarrow> PosData \<Rightarrow> StartPosQueue" where
  "StartPosQueuePush self posdata =
     (let offset = NOT (queue_idx self) AND 7;
          self1 = self\<lparr> queue_idx := queue_idx self + 1 \<rparr>;
          len = StartPosQueueSize self1;
          q = (queue_q self1)[unat offset := posdata]
      in self1\<lparr> queue_q := StartPosQueuePush_loop q offset 1 len \<rparr>)"

definition StartPosQueueAt :: "StartPosQueue \<Rightarrow> size_t \<Rightarrow> PosData" where
  "StartPosQueueAt self k = queue_q self ! unat ((k - queue_idx self) AND 7)"

section \<open>Distance cache along the chosen path\<close>






section \<open>Back-trace\<close>






section \<open>Command emitter\<close>

text \<open>
  The variables of \<^verbatim>\<open>BrotliZopfliCreateCommands\<close> that change in its loop. The commands
  written to \<^verbatim>\<open>commands[0]\<close>, \<^verbatim>\<open>commands[1]\<close>, ... are collected in order.
\<close>

record create_state =
  cs_pos :: size_t
  cs_offset :: uint32_t
  cs_i :: size_t
  cs_dist_cache :: "c_int list"
  cs_last_insert_len :: size_t
  cs_commands :: "Command list"
  cs_num_literals :: size_t

text \<open>The four assignments that push a distance onto the cache.\<close>

definition shift_dist_cache :: "c_int list \<Rightarrow> size_t \<Rightarrow> c_int list" where
  "shift_dist_cache dist_cache d =
     (let c1 = dist_cache[3 := dist_cache ! 2];
          c2 = c1[2 := c1 ! 1];
          c3 = c2[1 := c2 ! 0]
      in c3[0 := ucast d])"

text \<open>One pass through the loop body, for the node \<open>next\<close> at \<^verbatim>\<open>pos + offset\<close>.\<close>

definition BrotliZopfliCreateCommands_body ::
  "(size_t \<Rightarrow> size_t \<Rightarrow> size_t \<Rightarrow> size_t \<Rightarrow> Command) \<Rightarrow> size_t \<Rightarrow> size_t \<Rightarrow> ZopfliNode
     \<Rightarrow> create_state \<Rightarrow> create_state option" where
  "BrotliZopfliCreateCommands_body InitCommand block_start max_backward_limit next s =
     (case u_next (node_u next) of
        None \<Rightarrow> None
      | Some next_offset \<Rightarrow>
          (let copy_length = ucast (ZopfliNodeCopyLength next) :: size_t;
               insert_length0 = ucast (node_insert_length next) :: size_t;
               pos1 = cs_pos s + insert_length0;
               insert_length = (if cs_i s = 0 then insert_length0 + cs_last_insert_len s
                                else insert_length0);
               last_insert_len = (if cs_i s = 0 then 0 else cs_last_insert_len s);
               dist_v = ucast (ZopfliNodeCopyDistance next) :: size_t;
               len_code = ucast (ZopfliNodeLengthCode next) :: size_t;
               max_distance = min (block_start + pos1) max_backward_limit;
               is_dictionary = (dist_v > max_distance);
               dist_code = ucast (ZopfliNodeDistanceCode next) :: size_t
           in Some \<lparr> cs_pos = pos1 + copy_length,
                     cs_offset = next_offset,
                     cs_i = cs_i s + 1,
                     cs_dist_cache =
                       (if \<not> is_dictionary \<and> dist_code > 0
                        then shift_dist_cache (cs_dist_cache s) dist_v
                        else cs_dist_cache s),
                     cs_last_insert_len = last_insert_len,
                     cs_commands =
                       cs_commands s @ [InitCommand insert_length copy_length len_code dist_code],
                     cs_num_literals = cs_num_literals s + insert_length \<rparr>))"

partial_function (option) BrotliZopfliCreateCommands_loop ::
  "(size_t \<Rightarrow> size_t \<Rightarrow> size_t \<Rightarrow> size_t \<Rightarrow> Command) \<Rightarrow> size_t \<Rightarrow> size_t \<Rightarrow> ZopfliNode list
     \<Rightarrow> create_state \<Rightarrow> create_state option" where
  "BrotliZopfliCreateCommands_loop InitCommand block_start max_backward_limit nodes s =
     (if cs_offset s \<noteq> BROTLI_UINT32_MAX
      then
        (if unat (cs_pos s + ucast (cs_offset s)) < length nodes
         then
           (case BrotliZopfliCreateCommands_body InitCommand block_start max_backward_limit
                   (nodes ! unat (cs_pos s + ucast (cs_offset s))) s of
              None \<Rightarrow> None
            | Some s' \<Rightarrow>
                BrotliZopfliCreateCommands_loop InitCommand block_start max_backward_limit nodes s')
         else None)
      else Some s)"

declare BrotliZopfliCreateCommands_loop.simps [code]

text \<open>
  The result holds \<^verbatim>\<open>dist_cache\<close>, \<^verbatim>\<open>*last_insert_len\<close>, the commands and \<^verbatim>\<open>*num_literals\<close>
  as the call leaves them.
\<close>

definition BrotliZopfliCreateCommands ::
  "(size_t \<Rightarrow> size_t \<Rightarrow> size_t \<Rightarrow> size_t \<Rightarrow> Command) \<Rightarrow> size_t \<Rightarrow> size_t \<Rightarrow> size_t
     \<Rightarrow> ZopfliNode list \<Rightarrow> c_int list \<Rightarrow> size_t \<Rightarrow> size_t \<Rightarrow> create_state option" where
  "BrotliZopfliCreateCommands InitCommand num_bytes block_start max_backward_limit nodes
       dist_cache last_insert_len num_literals =
     (if nodes = [] then None
      else
        do {
          offset \<leftarrow> u_next (node_u (nodes ! 0));
          s \<leftarrow> BrotliZopfliCreateCommands_loop InitCommand block_start max_backward_limit nodes
                 \<lparr> cs_pos = 0, cs_offset = offset, cs_i = 0, cs_dist_cache = dist_cache,
                   cs_last_insert_len = last_insert_len, cs_commands = [],
                   cs_num_literals = num_literals \<rparr>;
          Some (s\<lparr> cs_last_insert_len := cs_last_insert_len s + (num_bytes - cs_pos s) \<rparr>)
        })"

section \<open>Properties\<close>

text \<open>
  The short code \<open>k\<close> applies to a distance, in the words of the specification: it is one
  of the four cache entries (codes 0..3), or, for quality above 3 and a distance of at
  least 6, the cache entry named by the index table plus the offset of \<open>k\<close>, with the
  distance at least the lower bound of \<open>k\<close> (codes 4..15).
\<close>

definition short_code_min_distance :: "size_t list" where
  "short_code_min_distance = [6, 6, 11, 11, 11, 11, 11, 11, 12, 12, 12, 12]"

definition short_code_applies ::
  "uint32_t list \<Rightarrow> c_int list \<Rightarrow> size_t \<Rightarrow> int \<Rightarrow> c_int list \<Rightarrow> nat \<Rightarrow> bool" where
  "short_code_applies dist_cache_index dist_cache_offset d quality dist_cache k =
     (if k < 4 then d = scast (dist_cache ! k)
      else k < 16 \<and> quality > 3 \<and> d \<ge> 6 \<and>
           d = scast (dist_cache ! unat (dist_cache_index ! k) + dist_cache_offset ! k) \<and>
           d \<ge> short_code_min_distance ! (k - 4))"

text \<open>A node holds a cost, and the cost is not \<^verbatim>\<open>kInfinity\<close>, which is the test of the source.\<close>

definition holds_cost :: "ZopfliNode \<Rightarrow> bool" where
  "holds_cost n = (u_cost (node_u n) \<noteq> None)"

definition finite_cost :: "ZopfliNode \<Rightarrow> bool" where
  "finite_cost n = (case u_cost (node_u n) of Some c \<Rightarrow> c \<noteq> kInfinity | None \<Rightarrow> False)"
















text \<open>
  The number of commands with command symbol \<open>c\<close>, and the number of commands with a
  command symbol of at least 128 and distance symbol \<open>d\<close>.
\<close>

definition count_cmd :: "Command list \<Rightarrow> nat \<Rightarrow> nat" where
  "count_cmd cs c = length (filter (\<lambda>x. unat (cmd_cmd_prefix x) = c) cs)"

definition count_dist :: "Command list \<Rightarrow> nat \<Rightarrow> nat" where
  "count_dist cs d =
     length (filter (\<lambda>x. 128 \<le> unat (cmd_cmd_prefix x) \<and> unat (cmd_dist_prefix x) = d) cs)"


text \<open>
  The histograms that the claim describes: entry \<open>c\<close> of the command histogram is the
  number of commands with command symbol \<open>c\<close>, entry \<open>d\<close> of the distance histogram the
  number of commands with distance symbol \<open>d\<close> among those whose command symbol is at
  least 128, both as \<^verbatim>\<open>uint32_t\<close>.
\<close>

definition command_histogram :: "Command list \<Rightarrow> nat \<Rightarrow> uint32_t list" where
  "command_histogram cs n = map (\<lambda>c. of_nat (count_cmd cs c)) [0..<n]"

definition distance_histogram :: "Command list \<Rightarrow> nat \<Rightarrow> uint32_t list" where
  "distance_histogram cs n = map (\<lambda>d. of_nat (count_dist cs d)) [0..<n]"

text \<open>
  The bit cost that the claim gives symbol \<open>i\<close> of a histogram \<open>H\<close>:
  \<open>max(1, log2(sum H) - log2(H[i]))\<close> when \<open>H[i] > 0\<close> and \<open>log2(sum H) + 2\<close> when \<open>H[i] = 0\<close>,
  with \<^verbatim>\<open>FastLog2\<close> as the logarithm, in \<^verbatim>\<open>float\<close> arithmetic. The sum is a \<^verbatim>\<open>size_t\<close>.
\<close>

definition float_max :: "c_float \<Rightarrow> c_float \<Rightarrow> c_float" where
  "float_max a b = (if float_less b a then a else b)"

definition symbol_cost :: "(size_t \<Rightarrow> real) \<Rightarrow> uint32_t list \<Rightarrow> nat \<Rightarrow> c_float" where
  "symbol_cost FastLog2 H i =
     (let log2sum = float_cast (FastLog2 (of_nat (sum_list (map unat H))))
      in if H ! i = 0 then float_add log2sum (Finite 2)
         else float_max (Finite 1) (float_sub log2sum (float_cast (FastLog2 (ucast (H ! i))))))"

text \<open>
  The nodes that a run of \<^verbatim>\<open>BrotliZopfliCreateCommands\<close> visits, one per emitted command,
  when it is at \<^verbatim>\<open>pos\<close> with the offset \<^verbatim>\<open>offset\<close> in hand: the node at \<^verbatim>\<open>pos + offset\<close>, then
  from the end of its command with its \<^verbatim>\<open>next\<close> offset, until the offset is the end mark.
\<close>

fun emitted_nodes :: "ZopfliNode list \<Rightarrow> size_t \<Rightarrow> uint32_t \<Rightarrow> nat list \<Rightarrow> bool" where
  "emitted_nodes nodes pos offset [] = (offset = BROTLI_UINT32_MAX)"
| "emitted_nodes nodes pos offset (q # qs) =
     (offset \<noteq> BROTLI_UINT32_MAX \<and> q = unat (pos + ucast offset) \<and> q < length nodes \<and>
      (case u_next (node_u (nodes ! q)) of
         None \<Rightarrow> False
       | Some offset' \<Rightarrow>
           emitted_nodes nodes
             (pos + ucast (node_insert_length (nodes ! q)) + ucast (ZopfliNodeCopyLength (nodes ! q)))
             offset' qs))"

text \<open>
  The effect that the claim gives one command on the four-entry cache: the command of
  node \<open>n\<close>, whose copy starts at \<open>start\<close>, pushes its distance if that is at most
  \<open>min(block_start + start, max_backward_limit)\<close> and its distance code is above 0, and
  leaves the cache as it is otherwise. \<open>cache_after\<close> applies it to the commands of the
  nodes \<open>qs\<close> in order, the first command's insert run starting at \<open>pos\<close>.
\<close>

definition command_cache_effect ::
  "size_t \<Rightarrow> size_t \<Rightarrow> size_t \<Rightarrow> ZopfliNode \<Rightarrow> c_int list \<Rightarrow> c_int list" where
  "command_cache_effect block_start max_backward_limit start n cache =
     (if unat (ZopfliNodeCopyDistance n) \<le> min (unat (block_start + start)) (unat max_backward_limit)
         \<and> 0 < unat (ZopfliNodeDistanceCode n)
      then [ZopfliNodeCopyDistance n, cache ! 0, cache ! 1, cache ! 2]
      else cache)"

fun cache_after ::
  "size_t \<Rightarrow> size_t \<Rightarrow> ZopfliNode list \<Rightarrow> size_t \<Rightarrow> c_int list \<Rightarrow> nat list \<Rightarrow> c_int list" where
  "cache_after block_start max_backward_limit nodes pos cache [] = cache"
| "cache_after block_start max_backward_limit nodes pos cache (q # qs) =
     (let start = pos + ucast (node_insert_length (nodes ! q))
      in cache_after block_start max_backward_limit nodes
           (start + ucast (ZopfliNodeCopyLength (nodes ! q)))
           (command_cache_effect block_start max_backward_limit start (nodes ! q) cache) qs)"

text \<open>The array \<open>example_nodes\<close> after the back-trace: two commands, ending at 2 and at 4.\<close>

definition example_traced :: "ZopfliNode list" where
  "example_traced =
     [\<lparr> node_length = 0, node_distance = 0, node_insert_length = 0, node_u = Next 2 \<rparr>,
      stub,
      \<lparr> node_length = 0x9000002, node_distance = 1, node_insert_length = 0, node_u = Next 2 \<rparr>,
      stub,
      \<lparr> node_length = 0x9000002, node_distance = 0x2000001, node_insert_length = 0,
        node_u = Next BROTLI_UINT32_MAX \<rparr>]"
section \<open>Word arithmetic\<close>

lemma bit_below: "x < 2 ^ k \<Longrightarrow> bit (x::'a::len word) n \<Longrightarrow> n < k"
proof -
  assume a: "x < 2 ^ k" and b: "bit x n"
  from a have "x AND mask k = x" by (rule less_mask_eq)
  then have "bit (x AND mask k) n" using b by simp
  then show "n < k" by (simp add: bit_and_iff bit_mask_iff)
qed

lemma mask24: "(0xffffff::uint32_t) = mask 24"
  by (simp add: mask_eq_exp_minus_1)

lemma mask25: "(0x1ffffff::uint32_t) = mask 25"
  by (simp add: mask_eq_exp_minus_1)

lemma pack_low:
  fixes x m :: size_t
  assumes "x < 2 ^ k" "k < 32"
  shows "(ucast (x OR push_bit k m) :: uint32_t) AND mask k = ucast x"
proof (rule bit_word_eqI)
  fix n assume "n < LENGTH(32)"
  then show "bit ((ucast (x OR push_bit k m) :: uint32_t) AND mask k) n
             = bit (ucast x :: uint32_t) n"
    using bit_below[OF assms(1), of n] assms(2)
    by (auto simp: bit_simps)
qed

lemma pack_high:
  fixes x m :: size_t
  assumes "x < 2 ^ k" "m < 2 ^ j" "k + j \<le> 32"
  shows "drop_bit k (ucast (x OR push_bit k m) :: uint32_t) = ucast m"
proof (rule bit_word_eqI)
  fix n assume "n < LENGTH(32)"
  then show "bit (drop_bit k (ucast (x OR push_bit k m) :: uint32_t)) n
             = bit (ucast m :: uint32_t) n"
    using bit_below[OF assms(1), of "k + n"] bit_below[OF assms(2), of n] assms(3)
    by (auto simp: bit_simps)
qed

lemma unat_ucast_64_32: "unat (x::size_t) < 2 ^ 32 \<Longrightarrow> unat (ucast x :: uint32_t) = unat x"
  by (simp add: unsigned_ucast_eq take_bit_nat_eq_self)

lemma unat_32_bound: "unat (x::uint32_t) < 2 ^ 32"
  using unsigned_less[of x, where 'a = nat] by simp


lemma unat_ucast_32_64: "unat (ucast (x::uint32_t) :: size_t) = unat x"
proof -
  have "unat x < 2 ^ 64" using unat_32_bound[of x] by simp
  then show ?thesis by (simp add: unsigned_ucast_eq take_bit_nat_eq_self)
qed

section \<open>Round trip through the packed node fields\<close>

lemma UpdateZopfliNode_fields:
  fixes pos start_pos len len_code dist_v short_code :: size_t
  assumes len: "unat len < 2 ^ 24"
    and lc1: "unat len_code \<le> unat len + 9"
    and lc2: "unat len + 9 - unat len_code < 256"
    and dist: "unat dist_v < 2 ^ 25"
    and sc: "unat short_code \<le> 16"
    and ins: "unat (pos - start_pos) < 2 ^ 32"
    and upd: "UpdateZopfliNode nodes pos start_pos len len_code dist_v short_code cost = Some nodes'"
  shows "unat (ZopfliNodeCopyLength (nodes' ! unat (pos + len))) = unat len"
    and "unat (ZopfliNodeLengthCode (nodes' ! unat (pos + len))) = unat len_code"
    and "unat (ZopfliNodeCopyDistance (nodes' ! unat (pos + len))) = unat dist_v"
    and "unat (ZopfliNodeDistanceCode (nodes' ! unat (pos + len))) =
           (if 0 < unat short_code then unat short_code - 1 else unat dist_v + 15)"
    and "unat (node_insert_length (nodes' ! unat (pos + len))) = unat (pos - start_pos)"
proof -
  let ?m = "len + 9 - len_code"
  let ?n = "nodes' ! unat (pos + len)"
  have n: "?n = \<lparr> node_length = ucast (len OR push_bit 24 ?m),
                  node_distance = ucast (dist_v OR push_bit 25 short_code),
                  node_insert_length = ucast (pos - start_pos),
                  node_u = Cost cost \<rparr>"
    using upd by (auto simp: UpdateZopfliNode_def Let_def split: if_splits)
  have len': "len < 2 ^ 24" using len by (simp add: word_less_nat_alt)
  have dist': "dist_v < 2 ^ 25" using dist by (simp add: word_less_nat_alt)
  have l9: "unat (len + 9) = unat len + 9"
    using len by (simp add: unat_add_lem[THEN iffD1])
  have lcle: "len_code \<le> len + 9" using lc1 l9 by (simp add: word_le_nat_alt)
  have um: "unat ?m = unat len + 9 - unat len_code"
    using lcle l9 by (simp add: unat_sub)
  have m': "?m < 2 ^ 8" using um lc2 by (simp add: word_less_nat_alt)
  have sc': "short_code < 2 ^ 5" using sc by (simp add: word_less_nat_alt)
  have cl: "ZopfliNodeCopyLength ?n = ucast len"
    using pack_low[OF len', of ?m] by (simp add: n ZopfliNodeCopyLength_def mask24)
  have md: "drop_bit 24 (node_length ?n) = ucast ?m"
    using pack_high[OF len' m'] by (simp add: n)
  have cd: "ZopfliNodeCopyDistance ?n = ucast dist_v"
    using pack_low[OF dist', of short_code] by (simp add: n ZopfliNodeCopyDistance_def mask25)
  have sd: "drop_bit 25 (node_distance ?n) = ucast short_code"
    using pack_high[OF dist' sc'] by (simp add: n)
  have ul: "unat (ucast len :: uint32_t) = unat len"
    using len by (simp add: unat_ucast_64_32)
  have umm: "unat (ucast ?m :: uint32_t) = unat len + 9 - unat len_code"
    using um lc2 by (simp add: unat_ucast_64_32)
  have ud: "unat (ucast dist_v :: uint32_t) = unat dist_v"
    using dist by (simp add: unat_ucast_64_32)
  have us: "unat (ucast short_code :: uint32_t) = unat short_code"
    using sc by (simp add: unat_ucast_64_32)
  show "unat (ZopfliNodeCopyLength ?n) = unat len" by (simp add: cl ul)
  have a9: "unat ((ucast len :: uint32_t) + 9) = unat len + 9"
    using len ul by (simp add: unat_add_lem[THEN iffD1])
  have "(ucast ?m :: uint32_t) \<le> ucast len + 9"
    using a9 umm by (simp add: word_le_nat_alt)
  then have "unat ((ucast len :: uint32_t) + 9 - ucast ?m)
             = unat len + 9 - (unat len + 9 - unat len_code)"
    by (simp add: unat_sub a9 umm)
  then show "unat (ZopfliNodeLengthCode ?n) = unat len_code"
    using lc1 by (simp add: ZopfliNodeLengthCode_def Let_def cl md)
  show "unat (ZopfliNodeCopyDistance ?n) = unat dist_v" by (simp add: cd ud)
  have s0: "(ucast short_code :: uint32_t) = 0 \<longleftrightarrow> unat short_code = 0"
    using us by (simp add: unat_eq_zero[symmetric])
  have d15: "unat ((ucast dist_v :: uint32_t) + 15) = unat dist_v + 15"
    using dist ud by (simp add: unat_add_lem[THEN iffD1])
  have s1: "(ucast short_code :: uint32_t) \<noteq> 0
            \<Longrightarrow> unat ((ucast short_code :: uint32_t) - 1) = unat short_code - 1"
    using us by (simp add: unat_minus_one)
  show "unat (ZopfliNodeDistanceCode ?n) =
           (if 0 < unat short_code then unat short_code - 1 else unat dist_v + 15)"
    using s0 s1 d15 by (auto simp: ZopfliNodeDistanceCode_def Let_def cd sd)
  show "unat (node_insert_length ?n) = unat (pos - start_pos)"
    using ins by (simp add: n unat_ucast_64_32)
qed

text \<open>
  C4, as stated, at \<^verbatim>\<open>pos = 2^32\<close>, \<^verbatim>\<open>start = 0\<close>, \<^verbatim>\<open>len = len_code = 2\<close>, \<^verbatim>\<open>dist = 1\<close>,
  \<^verbatim>\<open>short_code = 0\<close>: every stated range holds and \<^verbatim>\<open>start <= pos\<close>, yet the 32-bit field
  \<^verbatim>\<open>insert_length\<close> of the written node is 0 and not \<^verbatim>\<open>pos - start = 2^32\<close>.
\<close>

theorem C4_insert_length_counterexample:
  "map_option (\<lambda>ns. unat (node_insert_length (ns ! unat (4294967296 + 2 :: size_t))))
     (UpdateZopfliNode (replicate 4294967299 stub) 4294967296 0 2 2 1 0 (Finite 0)) = Some 0
   \<and> unat (4294967296 :: size_t) - unat (0 :: size_t) = 4294967296"
  by (simp add: UpdateZopfliNode_def)

text \<open>
  C4, amended: for \<^verbatim>\<open>len < 2^24\<close>, \<^verbatim>\<open>0 <= len + 9 - len_code < 256\<close>, \<^verbatim>\<open>dist < 2^25\<close>,
  \<^verbatim>\<open>short_code\<close> in 0..16, and a \<^verbatim>\<open>size_t\<close> difference \<^verbatim>\<open>pos - start\<close> below \<^verbatim>\<open>2^32\<close>, the node
  written by \<^verbatim>\<open>UpdateZopfliNode\<close> at \<^verbatim>\<open>pos + len\<close> gives back, through the accessors, the copy
  length \<^verbatim>\<open>len\<close>, the length code \<^verbatim>\<open>len_code\<close>, the distance \<^verbatim>\<open>dist\<close>, the distance code
  \<^verbatim>\<open>short_code - 1\<close> if \<^verbatim>\<open>short_code > 0\<close> and \<^verbatim>\<open>dist + 15\<close> otherwise, and the insert length
  \<^verbatim>\<open>pos - start\<close>.
\<close>

theorem C4_node_roundtrip:
  fixes pos start_pos len len_code dist_v short_code :: size_t
  assumes "unat len < 2 ^ 24"
    and "unat len_code \<le> unat len + 9"
    and "unat len + 9 - unat len_code < 256"
    and "unat dist_v < 2 ^ 25"
    and "unat short_code \<le> 16"
    and "unat (pos - start_pos) < 2 ^ 32"
    and "UpdateZopfliNode nodes pos start_pos len len_code dist_v short_code cost = Some nodes'"
  shows "unat (ZopfliNodeCopyLength (nodes' ! unat (pos + len))) = unat len
       \<and> unat (ZopfliNodeLengthCode (nodes' ! unat (pos + len))) = unat len_code
       \<and> unat (ZopfliNodeCopyDistance (nodes' ! unat (pos + len))) = unat dist_v
       \<and> unat (ZopfliNodeDistanceCode (nodes' ! unat (pos + len))) =
           (if 0 < unat short_code then unat short_code - 1 else unat dist_v + 15)
       \<and> unat (node_insert_length (nodes' ! unat (pos + len))) = unat (pos - start_pos)"
  using UpdateZopfliNode_fields[OF assms] by simp

theorem C4_node_roundtrip_witness:
  "UpdateZopfliNode (replicate 9 stub) 2 1 6 7 2 1 (Finite 3)
     = Some ((replicate 9 stub)[8 := \<lparr> node_length = 134217734, node_distance = 33554434,
                                       node_insert_length = 1, node_u = Cost (Finite 3) \<rparr>])
   \<and> unat (ZopfliNodeCopyLength \<lparr> node_length = 134217734, node_distance = 33554434,
                                   node_insert_length = 1, node_u = Cost (Finite 3) \<rparr>) = 6
   \<and> unat (ZopfliNodeLengthCode \<lparr> node_length = 134217734, node_distance = 33554434,
                                   node_insert_length = 1, node_u = Cost (Finite 3) \<rparr>) = 7
   \<and> unat (ZopfliNodeCopyDistance \<lparr> node_length = 134217734, node_distance = 33554434,
                                     node_insert_length = 1, node_u = Cost (Finite 3) \<rparr>) = 2
   \<and> unat (ZopfliNodeDistanceCode \<lparr> node_length = 134217734, node_distance = 33554434,
                                     node_insert_length = 1, node_u = Cost (Finite 3) \<rparr>) = 0
   \<and> unat (node_insert_length \<lparr> node_length = 134217734, node_distance = 33554434,
                                 node_insert_length = 1, node_u = Cost (Finite 3) \<rparr>) = 1"
proof -
  have upd: "UpdateZopfliNode (replicate 9 stub) 2 1 6 7 2 1 (Finite 3)
     = Some ((replicate 9 stub)[8 := \<lparr> node_length = 134217734, node_distance = 33554434,
                                       node_insert_length = 1, node_u = Cost (Finite 3) \<rparr>])"
    by (simp add: UpdateZopfliNode_def)
  show ?thesis
    using C4_node_roundtrip[of 6 7 2 1 2 1 "replicate 9 stub" "Finite 3", OF _ _ _ _ _ _ upd] upd
    by simp
qed

section \<open>Short codes of \<^verbatim>\<open>ComputeDistanceCode\<close>\<close>

lemma kLimits_min: "4 \<le> k \<Longrightarrow> k < 16 \<Longrightarrow> kLimits ! k = short_code_min_distance ! (k - 4)"
proof -
  assume "4 \<le> k" "k < 16"
  then have "k = 4 \<or> k = 5 \<or> k = 6 \<or> k = 7 \<or> k = 8 \<or> k = 9 \<or> k = 10 \<or> k = 11
            \<or> k = 12 \<or> k = 13 \<or> k = 14 \<or> k = 15" by arith
  then show ?thesis
    by (elim disjE) (simp_all add: kLimits_def short_code_min_distance_def)
qed

lemma short_code_loop_step:
  assumes "4 \<le> k" "k < 16" "q > 3" "d \<ge> 6"
  shows "ComputeDistanceCode_loop ki ko d dc k =
           (if short_code_applies ki ko d q dc k then Some (of_nat k)
            else ComputeDistanceCode_loop ki ko d dc (k + 1))"
proof -
  have "short_code_applies ki ko d q dc k
        = (d = scast (dc ! unat (ki ! k) + ko ! k) \<and> kLimits ! k \<le> d)"
    using assms by (auto simp: short_code_applies_def kLimits_min)
  then show ?thesis
    using assms(2)
    by (subst ComputeDistanceCode_loop.simps)
       (simp add: BROTLI_NUM_DISTANCE_SHORT_CODES_def unat_ucast_32_64 Let_def)
qed

lemma short_code_loop_least:
  assumes "k0 \<le> k" "k < 16" "4 \<le> k0"
    and "short_code_applies ki ko d q dc k"
  shows "\<exists>r. ComputeDistanceCode_loop ki ko d dc k0 = Some (of_nat r) \<and> k0 \<le> r \<and> r \<le> k
           \<and> short_code_applies ki ko d q dc r
           \<and> (\<forall>j. k0 \<le> j \<and> j < r \<longrightarrow> \<not> short_code_applies ki ko d q dc j)"
  using assms
proof (induction "k - k0" arbitrary: k0)
  case 0
  then have e: "k0 = k" by simp
  have q: "q > 3 \<and> d \<ge> 6" using 0 by (auto simp: short_code_applies_def split: if_splits)
  have "ComputeDistanceCode_loop ki ko d dc k = Some (of_nat k)"
    using short_code_loop_step[of k q d ki ko dc] 0 q e by simp
  then show ?case using 0 e by auto
next
  case (Suc n)
  then have lt: "k0 < k" "k0 < 16" by auto
  have q: "q > 3 \<and> d \<ge> 6" using Suc.prems by (auto simp: short_code_applies_def split: if_splits)
  note st = short_code_loop_step[of k0 q d ki ko dc, OF Suc.prems(3) lt(2)]
  show ?case
  proof (cases "short_code_applies ki ko d q dc k0")
    case True
    then have "ComputeDistanceCode_loop ki ko d dc k0 = Some (of_nat k0)"
      using st q by simp
    then show ?thesis using True lt by auto
  next
    case False
    then have step: "ComputeDistanceCode_loop ki ko d dc k0
                     = ComputeDistanceCode_loop ki ko d dc (k0 + 1)"
      using st q by simp
    have "n = k - (k0 + 1)" using Suc.hyps(2) by simp
    from Suc.hyps(1)[OF this] Suc.prems lt
    obtain r where r: "ComputeDistanceCode_loop ki ko d dc (k0 + 1) = Some (of_nat r)"
       "k0 + 1 \<le> r" "r \<le> k" "short_code_applies ki ko d q dc r"
       "\<forall>j. k0 + 1 \<le> j \<and> j < r \<longrightarrow> \<not> short_code_applies ki ko d q dc j"
      by auto
    have "\<forall>j. k0 \<le> j \<and> j < r \<longrightarrow> \<not> short_code_applies ki ko d q dc j"
    proof (intro allI impI)
      fix j assume "k0 \<le> j \<and> j < r"
      then show "\<not> short_code_applies ki ko d q dc j"
        using False r(5) by (cases "j = k0") auto
    qed
    then show ?thesis using r step by auto
  qed
qed

text \<open>
  C1, as stated, with the global \<^verbatim>\<open>brotlirep\<close> equal to 0: the distance 10 is the first cache
  entry and at most \<^verbatim>\<open>max_distance = 100\<close>, so short code 0 applies, yet the result is
  \<^verbatim>\<open>10 + 15\<close>.
\<close>

theorem C1_flag_counterexample:
  "ComputeDistanceCode 0 [0, 1, 2, 3, 0, 0, 0, 0, 0, 0, 1, 1, 1, 1, 1, 1]
      [0, 0, 0, 0, -1, 1, -2, 2, -3, 3, -1, 1, -2, 2, -3, 3] 10 100 5 [10, 20, 30, 40] = 10 + 15
   \<and> short_code_applies [0, 1, 2, 3, 0, 0, 0, 0, 0, 0, 1, 1, 1, 1, 1, 1]
      [0, 0, 0, 0, -1, 1, -2, 2, -3, 3, -1, 1, -2, 2, -3, 3] 10 5 [10, 20, 30, 40] 0
   \<and> (10::size_t) \<le> 100"
  by (simp add: ComputeDistanceCode_def short_code_applies_def)

text \<open>
  C1, amended: when the global \<^verbatim>\<open>brotlirep\<close> is not 0, for every distance
  \<^verbatim>\<open>d <= max_distance\<close> and every cache state, if some short code \<open>k < 16\<close> applies to \<open>d\<close>,
  then \<^verbatim>\<open>ComputeDistanceCode\<close> returns a short code that applies, the smallest one, and so
  a value below 16 and not \<^verbatim>\<open>d + 15\<close>.
\<close>

theorem C1_short_code_when_flag_set:
  assumes rep: "brotlirep \<noteq> 0" and le: "d \<le> max_distance"
    and "length dist_cache = 4"
    and "length dist_cache_index = 16" and "length dist_cache_offset = 16"
    and "\<forall>x \<in> set dist_cache_index. unat x < 4"
    and k: "k < 16"
    and ap: "short_code_applies dist_cache_index dist_cache_offset d quality dist_cache k"
  shows "\<exists>r \<le> k. ComputeDistanceCode brotlirep dist_cache_index dist_cache_offset d max_distance
                   quality dist_cache = of_nat r
               \<and> short_code_applies dist_cache_index dist_cache_offset d quality dist_cache r
               \<and> (\<forall>j < r. \<not> short_code_applies dist_cache_index dist_cache_offset d quality dist_cache j)"
proof -
  let ?A = "short_code_applies dist_cache_index dist_cache_offset d quality dist_cache"
  let ?C = "ComputeDistanceCode brotlirep dist_cache_index dist_cache_offset d max_distance
                   quality dist_cache"
  let ?L = "ComputeDistanceCode_loop dist_cache_index dist_cache_offset d dist_cache 4"
  have A: "(d = scast (dist_cache ! 0)) = ?A 0" "(d = scast (dist_cache ! 1)) = ?A 1"
          "(d = scast (dist_cache ! 2)) = ?A 2" "(d = scast (dist_cache ! 3)) = ?A 3"
    by (simp_all add: short_code_applies_def)
  have C: "?C = (if ?A 0 then 0 else if ?A 1 then 1 else if ?A 2 then 2 else if ?A 3 then 3
                 else if quality > 3 \<and> d \<ge> 6
                      then (case ?L of Some k \<Rightarrow> k | None \<Rightarrow> d + 15) else d + 15)"
    unfolding ComputeDistanceCode_def A using rep le by simp
  show ?thesis
  proof (cases "\<exists>j<4. ?A j")
    case True
    define r where "r = (LEAST j. ?A j)"
    from True obtain j0 where j0: "j0 < 4" "?A j0" by blast
    have Ar: "?A r" unfolding r_def using j0(2) by (rule LeastI)
    have r4: "r < 4" using Least_le[of ?A j0, OF j0(2)] j0(1) unfolding r_def by simp
    have least: "\<forall>j<r. \<not> ?A j" using not_less_Least[of _ ?A] unfolding r_def by blast
    have rk: "r \<le> k" unfolding r_def using ap by (rule Least_le)
    have "r = 0 \<or> r = 1 \<or> r = 2 \<or> r = 3" using r4 by arith
    then have "?C = of_nat r"
    proof (elim disjE)
      assume "r = 0" then show ?thesis using Ar by (simp add: C)
    next
      assume e: "r = 1"
      then have "\<not> ?A 0" using least by simp
      then show ?thesis using Ar e by (simp add: C)
    next
      assume e: "r = 2"
      then have "\<not> ?A 0" "\<not> ?A 1" using least by simp_all
      then show ?thesis using Ar e by (simp add: C)
    next
      assume e: "r = 3"
      then have "\<not> ?A 0" "\<not> ?A 1" "\<not> ?A 2" using least by simp_all
      then show ?thesis using Ar e by (simp add: C)
    qed
    then show ?thesis using rk Ar least by blast
  next
    case False
    then have n4: "\<forall>j<4. \<not> ?A j" by blast
    then have k4: "4 \<le> k" using ap by (meson not_le)
    then have q: "quality > 3 \<and> d \<ge> 6" using ap by (auto simp: short_code_applies_def)
    from short_code_loop_least[OF k4 k _ ap]
    obtain r where r: "?L = Some (of_nat r)"
      "4 \<le> r" "r \<le> k" "?A r" "\<forall>j. 4 \<le> j \<and> j < r \<longrightarrow> \<not> ?A j" by auto
    have "\<not> ?A 0" "\<not> ?A 1" "\<not> ?A 2" "\<not> ?A 3" using n4 by simp_all
    then have "?C = of_nat r"
      using q r(1) by (simp add: C)
    moreover have "\<forall>j<r. \<not> ?A j" using n4 r(5) by (metis not_le)
    ultimately show ?thesis using r by blast
  qed
qed

theorem C1_short_code_when_flag_set_witness:
  "\<exists>r \<le> 7. ComputeDistanceCode 1 [0, 1, 2, 3, 0, 0, 0, 0, 0, 0, 1, 1, 1, 1, 1, 1]
                [0, 0, 0, 0, -1, 1, -2, 2, -3, 3, -1, 1, -2, 2, -3, 3] 12 100 5 [10, 20, 30, 40]
              = of_nat r
          \<and> short_code_applies [0, 1, 2, 3, 0, 0, 0, 0, 0, 0, 1, 1, 1, 1, 1, 1]
                [0, 0, 0, 0, -1, 1, -2, 2, -3, 3, -1, 1, -2, 2, -3, 3] 12 5 [10, 20, 30, 40] r
          \<and> (\<forall>j < r. \<not> short_code_applies [0, 1, 2, 3, 0, 0, 0, 0, 0, 0, 1, 1, 1, 1, 1, 1]
                [0, 0, 0, 0, -1, 1, -2, 2, -3, 3, -1, 1, -2, 2, -3, 3] 12 5 [10, 20, 30, 40] j)"
proof -
  have h1: "(1::c_int) \<noteq> 0" by simp
  have h2: "(12::size_t) \<le> 100" by simp
  have h3: "length [10, 20, 30, 40 :: c_int] = 4" by simp
  have h4: "length [0, 1, 2, 3, 0, 0, 0, 0, 0, 0, 1, 1, 1, 1, 1, 1 :: uint32_t] = 16" by simp
  have h5: "length [0, 0, 0, 0, -1, 1, -2, 2, -3, 3, -1, 1, -2, 2, -3, 3 :: c_int] = 16" by simp
  have h6: "\<forall>x \<in> set [0, 1, 2, 3, 0, 0, 0, 0, 0, 0, 1, 1, 1, 1, 1, 1 :: uint32_t]. unat x < 4"
    by simp
  have h7: "(7::nat) < 16" by simp
  have h8: "short_code_applies [0, 1, 2, 3, 0, 0, 0, 0, 0, 0, 1, 1, 1, 1, 1, 1]
                [0, 0, 0, 0, -1, 1, -2, 2, -3, 3, -1, 1, -2, 2, -3, 3] 12 5 [10, 20, 30, 40] 7"
    by (simp add: short_code_applies_def short_code_min_distance_def)
  show ?thesis
    by (rule C1_short_code_when_flag_set[OF h1 h2 h3 h4 h5 h6 h7 h8])
qed

section \<open>Start-position queue\<close>

text \<open>
  C2 at ten pushes onto a fresh queue, with cost differences 0, -10, -9, -8, -7, -6, -5,
  -4, -3, -2 at positions 0..9: the size is 8 and the entries are in ascending order, but
  the tenth push overwrites the entry with cost difference -3 and keeps its own -2, so the
  queue does not hold the eight smallest cost differences pushed, which are -10, ..., -3.
\<close>

theorem C2_push_evicts_smaller:
  "(let q = foldl StartPosQueuePush
          (InitStartPosQueue
             \<lparr> queue_q = replicate 8 \<lparr> pd_pos = 0, pd_distance_cache = [], pd_costdiff = 0 \<rparr>,
               queue_idx = 0 \<rparr>)
          [\<lparr> pd_pos = 0, pd_distance_cache = [], pd_costdiff = 0 \<rparr>,
           \<lparr> pd_pos = 1, pd_distance_cache = [], pd_costdiff = -10 \<rparr>,
           \<lparr> pd_pos = 2, pd_distance_cache = [], pd_costdiff = -9 \<rparr>,
           \<lparr> pd_pos = 3, pd_distance_cache = [], pd_costdiff = -8 \<rparr>,
           \<lparr> pd_pos = 4, pd_distance_cache = [], pd_costdiff = -7 \<rparr>,
           \<lparr> pd_pos = 5, pd_distance_cache = [], pd_costdiff = -6 \<rparr>,
           \<lparr> pd_pos = 6, pd_distance_cache = [], pd_costdiff = -5 \<rparr>,
           \<lparr> pd_pos = 7, pd_distance_cache = [], pd_costdiff = -4 \<rparr>,
           \<lparr> pd_pos = 8, pd_distance_cache = [], pd_costdiff = -3 \<rparr>,
           \<lparr> pd_pos = 9, pd_distance_cache = [], pd_costdiff = -2 \<rparr>]
    in (StartPosQueueSize q,
        map (\<lambda>k. pd_costdiff (StartPosQueueAt q k)) [0, 1, 2, 3, 4, 5, 6, 7]))
   = (8, [-10, -9, -8, -7, -6, -5, -4, -2])"
  by code_simp

section \<open>The back-trace of \<^verbatim>\<open>ComputeShortestPathFromNodes\<close>\<close>

lemma finite_holds: "finite_cost n \<Longrightarrow> holds_cost n"
  by (auto simp: finite_cost_def holds_cost_def split: option.splits)













lemma ucast_32_64_32: "(ucast (ucast (w::uint32_t) :: size_t) :: uint32_t) = w"
  by (simp add: ucast_up_ucast_id is_up)











section \<open>The distance cache that \<^verbatim>\<open>ComputeDistanceCache\<close> rebuilds\<close>
















section \<open>The command emitter and the distance cache\<close>




lemma shift_dist_cache_eq:
  "length c = 4 \<Longrightarrow> shift_dist_cache c d = [ucast d, c ! 0, c ! 1, c ! 2]"
proof -
  assume "length c = 4"
  then obtain a0 a1 a2 a3 where "c = [a0, a1, a2, a3]"
    by (cases c; simp; rename_tac c1; case_tac c1; simp; rename_tac c2; case_tac c2; simp;
        rename_tac c3; case_tac c3; simp)
  then show ?thesis by (simp add: shift_dist_cache_def)
qed



lemma body_result:
  assumes "BrotliZopfliCreateCommands_body IC bs mb next s = Some s'"
  shows "u_next (node_u next) = Some (cs_offset s')"
    and "cs_pos s' = cs_pos s + ucast (node_insert_length next) + ucast (ZopfliNodeCopyLength next)"
    and "cs_dist_cache s' =
           (if (ucast (ZopfliNodeCopyDistance next) :: size_t)
                 \<le> min (bs + (cs_pos s + ucast (node_insert_length next))) mb
               \<and> 0 < (ucast (ZopfliNodeDistanceCode next) :: size_t)
            then shift_dist_cache (cs_dist_cache s) (ucast (ZopfliNodeCopyDistance next))
            else cs_dist_cache s)"
    and "cs_i s' = cs_i s + 1"
    and "length (cs_commands s') = length (cs_commands s) + 1"
  using assms
  by (auto simp: BrotliZopfliCreateCommands_body_def Let_def not_less split: option.splits)







lemma create_loop_commands:
  assumes run: "BrotliZopfliCreateCommands_loop IC bs mb nodes s = Some y"
  shows "length (cs_commands s) \<le> length (cs_commands y) \<and>
         (length (cs_commands y) = length (cs_commands s) \<longrightarrow> y = s)"
proof (rule BrotliZopfliCreateCommands_loop.raw_induct
         [where P = "\<lambda>IC bs mb nodes s y. length (cs_commands s) \<le> length (cs_commands y) \<and>
                        (length (cs_commands y) = length (cs_commands s) \<longrightarrow> y = s)",
          OF _ run])
  fix loop :: "(size_t \<Rightarrow> size_t \<Rightarrow> size_t \<Rightarrow> size_t \<Rightarrow> Command) \<Rightarrow> size_t \<Rightarrow> size_t
                \<Rightarrow> ZopfliNode list \<Rightarrow> create_state \<Rightarrow> create_state option"
    and IC bs mb nodes s y
  assume IH: "\<And>IC bs mb nodes s y. loop IC bs mb nodes s = Some y \<Longrightarrow>
                length (cs_commands s) \<le> length (cs_commands y) \<and>
                (length (cs_commands y) = length (cs_commands s) \<longrightarrow> y = s)"
    and eq: "(if cs_offset s \<noteq> BROTLI_UINT32_MAX
      then if unat (cs_pos s + ucast (cs_offset s)) < length nodes
           then case BrotliZopfliCreateCommands_body IC bs mb
                      (nodes ! unat (cs_pos s + ucast (cs_offset s))) s of
                None \<Rightarrow> None
                | Some s' \<Rightarrow> loop IC bs mb nodes s'
           else None
      else Some s) = Some y"
  show "length (cs_commands s) \<le> length (cs_commands y) \<and>
        (length (cs_commands y) = length (cs_commands s) \<longrightarrow> y = s)"
  proof (cases "cs_offset s \<noteq> BROTLI_UINT32_MAX")
    case False
    then show ?thesis using eq by simp
  next
    case True
    then obtain s' where s': "BrotliZopfliCreateCommands_body IC bs mb
                   (nodes ! unat (cs_pos s + ucast (cs_offset s))) s = Some s'"
       "loop IC bs mb nodes s' = Some y"
      using eq by (auto split: if_splits option.splits)
    have "length (cs_commands s') = length (cs_commands s) + 1"
      using body_result(5)[OF s'(1)] .
    moreover have "length (cs_commands s') \<le> length (cs_commands y)"
      using IH[OF s'(2)] by simp
    ultimately show ?thesis by simp
  qed
qed



section \<open>The effect of the emitter on the distance cache\<close>

lemma command_cache_effect_length:
  "length cache = 4 \<Longrightarrow> length (command_cache_effect bs mb start n cache) = 4"
  by (simp add: command_cache_effect_def)

lemma body_cache_effect:
  assumes b: "BrotliZopfliCreateCommands_body IC bs mb next s = Some s'"
    and l: "length (cs_dist_cache s) = 4"
  shows "cs_dist_cache s' =
           command_cache_effect bs mb (cs_pos s + ucast (node_insert_length next)) next
             (cs_dist_cache s)"
proof -
  have z: "(0 < (ucast (ZopfliNodeDistanceCode next) :: size_t))
           = (0 < unat (ZopfliNodeDistanceCode next))"
    by (simp add: word_less_nat_alt unat_ucast_32_64)
  have m: "((ucast (ZopfliNodeCopyDistance next) :: size_t)
              \<le> min (bs + (cs_pos s + ucast (node_insert_length next))) mb)
           = (unat (ZopfliNodeCopyDistance next)
              \<le> min (unat (bs + (cs_pos s + ucast (node_insert_length next)))) (unat mb))"
    by (auto simp: word_le_nat_alt unat_ucast_32_64 min_def)
  show ?thesis
    using body_result(3)[OF b]
    unfolding z m shift_dist_cache_eq[OF l] ucast_32_64_32 command_cache_effect_def .
qed

lemma create_loop_cache:
  assumes run: "BrotliZopfliCreateCommands_loop IC bs mb nodes s = Some y"
  shows "length (cs_dist_cache s) = 4 \<longrightarrow>
         (\<exists>qs. emitted_nodes nodes (cs_pos s) (cs_offset s) qs \<and>
               length (cs_commands y) = length (cs_commands s) + length qs \<and>
               cs_dist_cache y = cache_after bs mb nodes (cs_pos s) (cs_dist_cache s) qs)"
proof (rule BrotliZopfliCreateCommands_loop.raw_induct
         [where P = "\<lambda>IC bs mb nodes s y. length (cs_dist_cache s) = 4 \<longrightarrow>
            (\<exists>qs. emitted_nodes nodes (cs_pos s) (cs_offset s) qs \<and>
               length (cs_commands y) = length (cs_commands s) + length qs \<and>
               cs_dist_cache y = cache_after bs mb nodes (cs_pos s) (cs_dist_cache s) qs)",
          OF _ run])
  fix loop :: "(size_t \<Rightarrow> size_t \<Rightarrow> size_t \<Rightarrow> size_t \<Rightarrow> Command) \<Rightarrow> size_t \<Rightarrow> size_t
                \<Rightarrow> ZopfliNode list \<Rightarrow> create_state \<Rightarrow> create_state option"
    and IC bs mb nodes s y
  assume IH: "\<And>IC bs mb nodes s y. loop IC bs mb nodes s = Some y \<Longrightarrow>
                length (cs_dist_cache s) = 4 \<longrightarrow>
                (\<exists>qs. emitted_nodes nodes (cs_pos s) (cs_offset s) qs \<and>
                   length (cs_commands y) = length (cs_commands s) + length qs \<and>
                   cs_dist_cache y = cache_after bs mb nodes (cs_pos s) (cs_dist_cache s) qs)"
    and eq: "(if cs_offset s \<noteq> BROTLI_UINT32_MAX
      then if unat (cs_pos s + ucast (cs_offset s)) < length nodes
           then case BrotliZopfliCreateCommands_body IC bs mb
                      (nodes ! unat (cs_pos s + ucast (cs_offset s))) s of
                None \<Rightarrow> None
                | Some s' \<Rightarrow> loop IC bs mb nodes s'
           else None
      else Some s) = Some y"
  show "length (cs_dist_cache s) = 4 \<longrightarrow>
        (\<exists>qs. emitted_nodes nodes (cs_pos s) (cs_offset s) qs \<and>
           length (cs_commands y) = length (cs_commands s) + length qs \<and>
           cs_dist_cache y = cache_after bs mb nodes (cs_pos s) (cs_dist_cache s) qs)"
  proof
    assume l: "length (cs_dist_cache s) = 4"
    show "\<exists>qs. emitted_nodes nodes (cs_pos s) (cs_offset s) qs \<and>
           length (cs_commands y) = length (cs_commands s) + length qs \<and>
           cs_dist_cache y = cache_after bs mb nodes (cs_pos s) (cs_dist_cache s) qs"
    proof (cases "cs_offset s \<noteq> BROTLI_UINT32_MAX")
      case False
      then have "y = s" using eq by simp
      then show ?thesis using False by (intro exI[of _ "[]"]) simp
    next
      case True
      let ?q = "unat (cs_pos s + ucast (cs_offset s))"
      let ?n = "nodes ! ?q"
      from True obtain s' where s': "?q < length nodes"
         "BrotliZopfliCreateCommands_body IC bs mb ?n s = Some s'"
         "loop IC bs mb nodes s' = Some y"
        using eq by (auto split: if_splits option.splits)
      note br = body_result[OF s'(2)]
      have c': "cs_dist_cache s' =
                  command_cache_effect bs mb (cs_pos s + ucast (node_insert_length ?n)) ?n
                    (cs_dist_cache s)"
        using body_cache_effect[OF s'(2) l] .
      then have l': "length (cs_dist_cache s') = 4"
        using command_cache_effect_length[OF l] by simp
      from IH[OF s'(3)] l' obtain qs where qs:
        "emitted_nodes nodes (cs_pos s') (cs_offset s') qs"
        "length (cs_commands y) = length (cs_commands s') + length qs"
        "cs_dist_cache y = cache_after bs mb nodes (cs_pos s') (cs_dist_cache s') qs"
        by blast
      have e: "emitted_nodes nodes (cs_pos s) (cs_offset s) (?q # qs)"
        using True s'(1) br(1) qs(1) unfolding br(2) by simp
      have n: "length (cs_commands y) = length (cs_commands s) + length (?q # qs)"
        using qs(2) br(5) by simp
      have c: "cs_dist_cache y = cache_after bs mb nodes (cs_pos s) (cs_dist_cache s) (?q # qs)"
        using qs(3) unfolding c' br(2) by (simp add: Let_def)
      show ?thesis using e n c by blast
    qed
  qed
qed

text \<open>
  C9: when \<^verbatim>\<open>BrotliZopfliCreateCommands\<close> returns from a call with a four-entry cache, it
  has visited a list of nodes that starts with the \<^verbatim>\<open>next\<close> offset of node 0, it has emitted
  one command for each, and the cache it leaves is the cache it was given after the
  effect of each of these commands in order: the command pushes its distance, dropping the
  last entry, if and only if the distance is at most
  \<^verbatim>\<open>min(block_start + pos, max_backward_limit)\<close>, \<^verbatim>\<open>pos\<close> being the start of its copy, and its
  distance code is above 0, and leaves all four entries as they are otherwise. A run that
  emits no command leaves the cache as it was given.
\<close>

theorem C9_emitter_cache_frame:
  assumes l: "length dist_cache = 4"
    and run: "BrotliZopfliCreateCommands InitCommand num_bytes block_start max_backward_limit
                nodes dist_cache last_insert_len num_literals = Some r"
  shows "(\<exists>offset qs.
            u_next (node_u (nodes ! 0)) = Some offset \<and>
            emitted_nodes nodes 0 offset qs \<and>
            length (cs_commands r) = length qs \<and>
            cs_dist_cache r = cache_after block_start max_backward_limit nodes 0 dist_cache qs)
         \<and> (cs_commands r = [] \<longrightarrow> cs_dist_cache r = dist_cache)"
proof -
  from run obtain off t where t: "u_next (node_u (nodes ! 0)) = Some off"
    "BrotliZopfliCreateCommands_loop InitCommand block_start max_backward_limit nodes
       \<lparr> cs_pos = 0, cs_offset = off, cs_i = 0, cs_dist_cache = dist_cache,
         cs_last_insert_len = last_insert_len, cs_commands = [],
         cs_num_literals = num_literals \<rparr> = Some t"
    "r = t\<lparr> cs_last_insert_len := cs_last_insert_len t + (num_bytes - cs_pos t) \<rparr>"
    by (auto simp: BrotliZopfliCreateCommands_def split: if_splits Option.bind_splits)
  from create_loop_cache[OF t(2)] l obtain qs where qs:
    "emitted_nodes nodes 0 off qs"
    "length (cs_commands t) = length qs"
    "cs_dist_cache t = cache_after block_start max_backward_limit nodes 0 dist_cache qs"
    by auto
  have a: "\<exists>offset qs.
            u_next (node_u (nodes ! 0)) = Some offset \<and>
            emitted_nodes nodes 0 offset qs \<and>
            length (cs_commands r) = length qs \<and>
            cs_dist_cache r = cache_after block_start max_backward_limit nodes 0 dist_cache qs"
    using t(1,3) qs by auto
  have "cs_commands r = [] \<longrightarrow> cs_dist_cache r = dist_cache"
    using t(3) qs(2,3) by auto
  then show ?thesis using a by blast
qed

theorem C9_emitter_cache_frame_witness:
  "\<exists>r. BrotliZopfliCreateCommands
          (\<lambda>a b c d. \<lparr> cmd_insert_len = ucast a, cmd_copy_len = ucast b, cmd_dist_extra = 0,
                       cmd_cmd_prefix = ucast c, cmd_dist_prefix = ucast d \<rparr>)
          4 100 1000 example_traced [11, 12, 13, 14] 0 0 = Some r \<and>
       length (cs_commands r) = 2 \<and>
       emitted_nodes example_traced 0 2 [2, 4] \<and>
       cs_dist_cache r = cache_after 100 1000 example_traced 0 [11, 12, 13, 14] [2, 4] \<and>
       cs_dist_cache r = [1, 11, 12, 13]"
proof -
  let ?IC = "\<lambda>a b c d :: size_t. \<lparr> cmd_insert_len = ucast a, cmd_copy_len = ucast b,
                 cmd_dist_extra = 0, cmd_cmd_prefix = ucast c, cmd_dist_prefix = ucast d \<rparr>"
  have l: "length [11, 12, 13, 14 :: c_int] = 4" by simp
  have "BrotliZopfliCreateCommands ?IC 4 100 1000 example_traced [11, 12, 13, 14] 0 0 \<noteq> None"
    by code_simp
  then obtain r where run:
    "BrotliZopfliCreateCommands ?IC 4 100 1000 example_traced [11, 12, 13, 14] 0 0 = Some r"
    by blast
  from C9_emitter_cache_frame[OF l run] obtain offset qs where f:
    "u_next (node_u (example_traced ! 0)) = Some offset"
    "emitted_nodes example_traced 0 offset qs"
    "length (cs_commands r) = length qs"
    "cs_dist_cache r = cache_after 100 1000 example_traced 0 [11, 12, 13, 14] qs"
    by blast
  have o: "offset = 2" using f(1) by (simp add: example_traced_def)
  have e: "\<And>qs. emitted_nodes example_traced 0 2 qs \<Longrightarrow> qs = [2, 4]"
  proof -
    fix qs assume a: "emitted_nodes example_traced 0 2 qs"
    then obtain qs1 where q1: "qs = 2 # qs1" "emitted_nodes example_traced 2 2 qs1"
      by (cases qs)
         (auto simp: example_traced_def BROTLI_UINT32_MAX_def ZopfliNodeCopyLength_def)
    then obtain qs2 where q2: "qs1 = 4 # qs2" "emitted_nodes example_traced 4 BROTLI_UINT32_MAX qs2"
      by (cases qs1)
         (auto simp: example_traced_def BROTLI_UINT32_MAX_def ZopfliNodeCopyLength_def)
    then have "qs2 = []" by (cases qs2) auto
    then show "qs = [2, 4]" using q1 q2 by simp
  qed
  have q: "qs = [2, 4]" using e f(2) o by simp
  have v: "cache_after 100 1000 example_traced 0 [11, 12, 13, 14] [2, 4] = [1, 11, 12, 13]"
    by code_simp
  show ?thesis using run f q o v by (intro exI[of _ r]) simp
qed

section \<open>The cost model fitted to the commands\<close>

lemma unat_ucast_16_64: "unat (ucast (x::uint16_t) :: size_t) = unat x"
proof -
  have "unat x < 2 ^ 16" using unsigned_less[of x, where 'a = nat] by simp
  then have "unat x < 2 ^ 64" by simp
  then show ?thesis by (simp add: unsigned_ucast_eq take_bit_nat_eq_self)
qed

lemma foldl_sum_shift:
  "foldl (\<lambda>s h. s + ucast h) (a::size_t) (xs::uint32_t list)
   = a + of_nat (sum_list (map unat xs))"
  by (induction xs arbitrary: a) (simp_all add: add.assoc)

lemma foldl_sum:
  "foldl (\<lambda>s h. s + ucast h) (0::size_t) (xs::uint32_t list) = of_nat (sum_list (map unat xs))"
  using foldl_sum_shift[of 0 xs] by simp

lemma SetCost_nth:
  assumes "SetCost FastLog2 histogram histogram_size cost = Some cost'"
    and "i < unat histogram_size"
  shows "cost' ! i = symbol_cost FastLog2 (take (unat histogram_size) histogram) i"
proof -
  let ?n = "unat histogram_size"
  let ?S = "float_cast (FastLog2 (of_nat (sum_list (map unat (take ?n histogram)))))"
  let ?f = "\<lambda>h. if h = 0 then float_add ?S (Finite 2)
                 else (let c = float_sub ?S (float_cast (FastLog2 (ucast h)))
                       in if float_less c (Finite 1) then Finite 1 else c)"
  have n: "?n \<le> length histogram" "?n \<le> length cost"
    using assms(1) by (auto simp: SetCost_def split: if_splits)
  have c: "cost' = map ?f (take ?n histogram) @ drop ?n cost"
    using assms(1) n by (simp add: SetCost_def Let_def foldl_sum)
  have "cost' ! i = ?f (histogram ! i)"
    using assms(2) n unfolding c by (simp add: nth_append)
  then show ?thesis using assms(2) by (simp add: symbol_cost_def float_max_def Let_def)
qed

lemma SetCost_total:
  assumes "unat histogram_size \<le> length histogram" "unat histogram_size \<le> length cost"
  shows "\<exists>cost'. SetCost FastLog2 histogram histogram_size cost = Some cost' \<and>
                 length cost' = length cost"
  using assms by (simp add: SetCost_def Let_def)

lemma incr_Some:
  "incr h k = Some h' \<Longrightarrow> k < length h \<and> h' = h[k := h ! k + 1]"
  by (auto simp: incr_def split: if_splits)

lemma count_literals_length:
  "count_literals rb rmask pos n j h = Some h' \<Longrightarrow> length h' = length h"
  by (induction n arbitrary: j h) (auto split: option.splits dest: incr_Some)

lemma histograms_counts:
  "ZopfliCostModelSetFromCommands_histograms CCL rb rmask cs pos (hl0, hc0, hd0) = Some (hli, hci, hdi)
   \<Longrightarrow> length hci = length hc0 \<and> length hdi = length hd0 \<and> length hli = length hl0 \<and>
       (\<forall>c < length hc0. hci ! c = hc0 ! c + of_nat (count_cmd cs c)) \<and>
       (\<forall>d < length hd0. hdi ! d = hd0 ! d + of_nat (count_dist cs d))"
proof (induction cs arbitrary: pos hl0 hc0 hd0)
  case Nil
  then show ?case by (simp add: count_cmd_def count_dist_def)
next
  case (Cons x cs)
  let ?k = "unat (cmd_cmd_prefix x)"
  let ?d = "unat (cmd_dist_prefix x)"
  from Cons.prems obtain hc1 hd1 hl1 where s:
    "incr hc0 ?k = Some hc1"
    "(if 128 \<le> ?k then incr hd0 ?d else Some hd0) = Some hd1"
    "count_literals rb rmask pos (unat (cmd_insert_len x)) 0 hl0 = Some hl1"
    "ZopfliCostModelSetFromCommands_histograms CCL rb rmask cs
       (pos + (ucast (cmd_insert_len x) + ucast (CCL x))) (hl1, hc1, hd1) = Some (hli, hci, hdi)"
    by (auto simp: Let_def unat_ucast_16_64 unat_ucast_32_64 word_le_nat_alt
             split: option.splits if_splits)
  note ih = Cons.IH[OF s(4)]
  have hc1: "?k < length hc0" "hc1 = hc0[?k := hc0 ! ?k + 1]" using incr_Some[OF s(1)] by auto
  have hd1: "length hd1 = length hd0"
    "\<forall>d < length hd0. hd1 ! d = hd0 ! d + (if 128 \<le> ?k \<and> ?d = d then 1 else 0)"
    using s(2) by (auto simp: nth_list_update split: if_splits dest!: incr_Some)
  have hl1: "length hl1 = length hl0" using count_literals_length[OF s(3)] .
  have cc: "\<And>c. count_cmd (x # cs) c = (if ?k = c then 1 else 0) + count_cmd cs c"
    by (simp add: count_cmd_def)
  have cd: "\<And>d. count_dist (x # cs) d = (if 128 \<le> ?k \<and> ?d = d then 1 else 0) + count_dist cs d"
    by (simp add: count_dist_def)
  have a: "\<forall>c < length hc0. hci ! c = hc0 ! c + of_nat (count_cmd (x # cs) c)"
    using ih hc1 by (auto simp: cc nth_list_update)
  have b: "\<forall>d < length hd0. hdi ! d = hd0 ! d + of_nat (count_dist (x # cs) d)"
    using ih hd1 by (auto simp: cd)
  show ?case using ih hc1 hd1 hl1 a b by simp
qed


lemma count_literals_total:
  "256 \<le> length h \<Longrightarrow> \<exists>h'. count_literals rb rmask pos n j h = Some h'"
proof (induction n arbitrary: j h)
  case 0
  then show ?case by simp
next
  case (Suc n)
  let ?b = "unat (rb ((pos + j) AND rmask))"
  have "?b < 2 ^ 8" using unsigned_less[of "rb ((pos + j) AND rmask)", where 'a = nat] by simp
  then have lt: "?b < length h" using Suc.prems by simp
  then have i: "incr h ?b = Some (h[?b := h ! ?b + 1])" by (simp add: incr_def)
  have "256 \<le> length (h[?b := h ! ?b + 1])" using Suc.prems by simp
  from Suc.IH[OF this, of "j + 1"] show ?case using i by simp
qed

lemma histograms_total:
  "256 \<le> length hl0 \<Longrightarrow>
   \<forall>x \<in> set cs. unat (cmd_cmd_prefix x) < length hc0 \<and>
                 (128 \<le> unat (cmd_cmd_prefix x) \<longrightarrow> unat (cmd_dist_prefix x) < length hd0) \<Longrightarrow>
   \<exists>r. ZopfliCostModelSetFromCommands_histograms CCL rb rmask cs pos (hl0, hc0, hd0) = Some r"
proof (induction cs arbitrary: pos hl0 hc0 hd0)
  case Nil
  then show ?case by simp
next
  case (Cons x cs)
  let ?k = "unat (cmd_cmd_prefix x)"
  let ?d = "unat (cmd_dist_prefix x)"
  have k: "?k < length hc0" "128 \<le> ?k \<longrightarrow> ?d < length hd0" using Cons.prems(2) by simp_all
  obtain hc1 where hc1: "incr hc0 ?k = Some hc1" "length hc1 = length hc0"
    using k(1) by (simp add: incr_def)
  obtain hd1 where hd1: "(if 128 \<le> ?k then incr hd0 ?d else Some hd0) = Some hd1"
    "length hd1 = length hd0"
    using k(2) by (cases "128 \<le> ?k") (simp_all add: incr_def)
  obtain hl1 where hl1: "count_literals rb rmask pos (unat (cmd_insert_len x)) 0 hl0 = Some hl1"
    using count_literals_total[OF Cons.prems(1)] by blast
  have l: "256 \<le> length hl1" using count_literals_length[OF hl1] Cons.prems(1) by simp
  have r: "\<forall>x \<in> set cs. unat (cmd_cmd_prefix x) < length hc1 \<and>
                 (128 \<le> unat (cmd_cmd_prefix x) \<longrightarrow> unat (cmd_dist_prefix x) < length hd1)"
    using Cons.prems(2) hc1(2) hd1(2) by simp
  from Cons.IH[OF l r, of "pos + (ucast (cmd_insert_len x) + ucast (CCL x))"]
  obtain res where "ZopfliCostModelSetFromCommands_histograms CCL rb rmask cs
       (pos + (ucast (cmd_insert_len x) + ucast (CCL x))) (hl1, hc1, hd1) = Some res" by blast
  moreover obtain r1 r2 r3 where "res = (r1, r2, r3)" by (cases res)
  ultimately show ?case
    using hc1(1) hd1(1) hl1
    by (auto simp: Let_def unat_ucast_16_64 unat_ucast_32_64 word_le_nat_alt split: if_splits)
qed

lemma histograms_from_zero:
  assumes "ZopfliCostModelSetFromCommands_histograms CCL rb rmask cs pos
             (replicate nl 0, replicate nc 0, replicate nd 0) = Some (hli, hci, hdi)"
  shows "hci = command_histogram cs nc" "hdi = distance_histogram cs nd" "length hli = nl"
proof -
  note h = histograms_counts[OF assms]
  show "hci = command_histogram cs nc"
    using h by (intro nth_equalityI) (simp_all add: command_histogram_def)
  show "hdi = distance_histogram cs nd"
    using h by (intro nth_equalityI) (simp_all add: distance_histogram_def)
  show "length hli = nl" using h by simp
qed

lemma literal_costs_loop_total:
  "unat i + n < length lc \<Longrightarrow> unat i + n < 2 ^ 64 \<Longrightarrow> 256 \<le> length cl \<Longrightarrow>
   \<exists>r. literal_costs_loop rb rmask position cl n i lc = Some r"
proof (induction n arbitrary: i lc)
  case 0
  then show ?case by simp
next
  case (Suc n)
  let ?b = "unat (rb ((position + i) AND rmask))"
  let ?lc = "lc[unat i + 1 := float_add (lc ! unat i) (cl ! ?b)]"
  have "?b < 2 ^ 8" using unsigned_less[of "rb ((position + i) AND rmask)", where 'a = nat] by simp
  then have b: "?b < length cl" using Suc.prems(3) by simp
  have i1: "unat (i + 1) = unat i + 1"
    using Suc.prems(2) by (simp add: unat_add_lem[THEN iffD1])
  have a: "unat (i + 1) + n < length ?lc" using Suc.prems(1) i1 by simp
  have c: "unat (i + 1) + n < 2 ^ 64" using Suc.prems(2) i1 by simp
  from Suc.IH[OF a c Suc.prems(3)]
  obtain r where "literal_costs_loop rb rmask position cl n (i + 1) ?lc = Some r" by blast
  moreover have "unat i + 1 < length lc" using Suc.prems(1) by simp
  ultimately show ?case using b by (simp add: Let_def)
qed

lemma unat_of_nat_64: "n < 2 ^ 64 \<Longrightarrow> unat (of_nat n :: size_t) = n"
  unfolding unat_of_nat by simp

text \<open>
  C7: \<^verbatim>\<open>SetCost\<close> returns when the histogram and the cost array have \<^verbatim>\<open>histogram_size\<close>
  entries, and gives symbol \<open>i\<close> the cost \<^verbatim>\<open>log2sum + 2\<close> when its count is 0 and
  \<^verbatim>\<open>max(1, log2sum - FastLog2(count))\<close> otherwise, \<^verbatim>\<open>log2sum\<close> being \<^verbatim>\<open>FastLog2\<close> of the sum of the
  histogram, in \<^verbatim>\<open>float\<close> arithmetic (\<^verbatim>\<open>FastLog2\<close> is the base-2 logarithm of the source, a
  parameter here). \<^verbatim>\<open>ZopfliCostModelSetFromCommands\<close> returns when the symbols of the commands
  are inside the alphabets and the arrays of the model are large enough, and the command
  costs it leaves are these costs for the histogram that counts the command symbol of
  every command, the distance costs these costs for the histogram that counts the
  distance symbol of exactly the commands whose command symbol is at least 128.
\<close>

theorem C7_refit_cost_model:
  assumes nl: "256 \<le> num_literal"
    and nc: "num_command < 2 ^ 64" "num_command \<le> length (model_cost_cmd self)"
    and nd: "num_distance < 2 ^ 64" "num_distance \<le> length (model_cost_dist self)"
    and nb: "unat (model_num_bytes self) < length (model_literal_costs self)"
    and cs: "\<forall>x \<in> set commands. unat (cmd_cmd_prefix x) < num_command \<and>
               (128 \<le> unat (cmd_cmd_prefix x) \<longrightarrow> unat (cmd_dist_prefix x) < num_distance)"
  shows "(unat histogram_size \<le> length histogram \<and> unat histogram_size \<le> length cost \<longrightarrow>
           (\<exists>cost'. SetCost FastLog2 histogram histogram_size cost = Some cost' \<and>
              (\<forall>i < unat histogram_size.
                 cost' ! i = symbol_cost FastLog2 (take (unat histogram_size) histogram) i)))
         \<and> (\<exists>model'.
              ZopfliCostModelSetFromCommands FastLog2 CommandCopyLen num_literal num_command
                num_distance self position ringbuffer ringbuffer_mask commands last_insert_len
                = Some model' \<and>
              (\<forall>c < num_command.
                 model_cost_cmd model' ! c
                 = symbol_cost FastLog2 (command_histogram commands num_command) c) \<and>
              (\<forall>d < num_distance.
                 model_cost_dist model' ! d
                 = symbol_cost FastLog2 (distance_histogram commands num_distance) d))"
proof
  show "unat histogram_size \<le> length histogram \<and> unat histogram_size \<le> length cost \<longrightarrow>
           (\<exists>cost'. SetCost FastLog2 histogram histogram_size cost = Some cost' \<and>
              (\<forall>i < unat histogram_size.
                 cost' ! i = symbol_cost FastLog2 (take (unat histogram_size) histogram) i))"
  proof
    assume a: "unat histogram_size \<le> length histogram \<and> unat histogram_size \<le> length cost"
    then obtain cost' where c: "SetCost FastLog2 histogram histogram_size cost = Some cost'"
      using SetCost_total[of histogram_size histogram cost FastLog2] by blast
    show "\<exists>cost'. SetCost FastLog2 histogram histogram_size cost = Some cost' \<and>
              (\<forall>i < unat histogram_size.
                 cost' ! i = symbol_cost FastLog2 (take (unat histogram_size) histogram) i)"
      using c SetCost_nth[OF c] by blast
  qed
next
  let ?pos = "position - last_insert_len"
  have "\<exists>r. ZopfliCostModelSetFromCommands_histograms CommandCopyLen ringbuffer ringbuffer_mask
          commands ?pos (replicate num_literal 0, replicate num_command 0, replicate num_distance 0)
          = Some r"
    using histograms_total[of "replicate num_literal 0" commands "replicate num_command 0"
            "replicate num_distance 0"] nl cs by simp
  then obtain hl hc hd where h:
    "ZopfliCostModelSetFromCommands_histograms CommandCopyLen ringbuffer ringbuffer_mask
          commands ?pos (replicate num_literal 0, replicate num_command 0, replicate num_distance 0)
          = Some (hl, hc, hd)"
    by (metis prod_cases3)
  note hz = histograms_from_zero[OF h]
  have lhc: "length hc = num_command" and lhd: "length hd = num_distance"
    using hz by (simp_all add: command_histogram_def distance_histogram_def)
  have unl: "unat (of_nat num_literal :: size_t) \<le> num_literal"
    unfolding unat_of_nat by simp
  obtain cl where cl:
    "SetCost FastLog2 hl (of_nat num_literal) (replicate num_literal (Finite 0)) = Some cl"
    "length cl = num_literal"
    using SetCost_total[of "of_nat num_literal" hl "replicate num_literal (Finite 0)" FastLog2]
      unl hz(3) by auto
  obtain cc where cc:
    "SetCost FastLog2 hc (of_nat num_command) (model_cost_cmd self) = Some cc"
    using SetCost_total[of "of_nat num_command" hc "model_cost_cmd self" FastLog2]
      unat_of_nat_64[OF nc(1)] nc(2) lhc by auto
  obtain cd where cd:
    "SetCost FastLog2 hd (of_nat num_distance) (model_cost_dist self) = Some cd"
    using SetCost_total[of "of_nat num_distance" hd "model_cost_dist self" FastLog2]
      unat_of_nat_64[OF nd(1)] nd(2) lhd by auto
  have ne: "model_literal_costs self \<noteq> []" using nb by auto
  have "\<exists>r. literal_costs_loop ringbuffer ringbuffer_mask position cl
              (unat (model_num_bytes self)) 0 ((model_literal_costs self)[0 := Finite 0]) = Some r"
  proof (rule literal_costs_loop_total)
    show "unat (0 :: size_t) + unat (model_num_bytes self)
          < length ((model_literal_costs self)[0 := Finite 0])"
      using nb by simp
    show "unat (0 :: size_t) + unat (model_num_bytes self) < 2 ^ 64"
      using unsigned_less[of "model_num_bytes self", where 'a = nat] by simp
    show "256 \<le> length cl" using cl(2) nl by simp
  qed
  then obtain lcs where lcs:
    "literal_costs_loop ringbuffer ringbuffer_mask position cl
       (unat (model_num_bytes self)) 0 ((model_literal_costs self)[0 := Finite 0]) = Some lcs"
    by blast
  let ?m = "self\<lparr> model_cost_cmd := cc, model_cost_dist := cd, model_literal_costs := lcs,
                    model_min_cost_cmd := foldl float_min kInfinity (take num_command cc) \<rparr>"
  have run: "ZopfliCostModelSetFromCommands FastLog2 CommandCopyLen num_literal num_command
                num_distance self position ringbuffer ringbuffer_mask commands last_insert_len
             = Some ?m"
    using h cl(1) cc cd lcs ne by (simp add: ZopfliCostModelSetFromCommands_def)
  have tc: "take (unat (of_nat num_command :: size_t)) hc = command_histogram commands num_command"
    using unat_of_nat_64[OF nc(1)] lhc hz(1) by simp
  have td: "take (unat (of_nat num_distance :: size_t)) hd
            = distance_histogram commands num_distance"
    using unat_of_nat_64[OF nd(1)] lhd hz(2) by simp
  have a: "\<forall>c < num_command.
             model_cost_cmd ?m ! c = symbol_cost FastLog2 (command_histogram commands num_command) c"
    using SetCost_nth[OF cc] unat_of_nat_64[OF nc(1)] unfolding tc by simp
  have b: "\<forall>d < num_distance.
             model_cost_dist ?m ! d
             = symbol_cost FastLog2 (distance_histogram commands num_distance) d"
    using SetCost_nth[OF cd] unat_of_nat_64[OF nd(1)] unfolding td by simp
  show "\<exists>model'.
              ZopfliCostModelSetFromCommands FastLog2 CommandCopyLen num_literal num_command
                num_distance self position ringbuffer ringbuffer_mask commands last_insert_len
                = Some model' \<and>
              (\<forall>c < num_command.
                 model_cost_cmd model' ! c
                 = symbol_cost FastLog2 (command_histogram commands num_command) c) \<and>
              (\<forall>d < num_distance.
                 model_cost_dist model' ! d
                 = symbol_cost FastLog2 (distance_histogram commands num_distance) d)"
    using run a b by blast
qed

theorem C7_refit_cost_model_witness:
  "(\<exists>cost'. SetCost (\<lambda>v. if v = 1000 then 5610237798857365 / 562949953421312
                        else if v = 997 then 5607797641470207 / 562949953421312
                        else if v = 3 then 892254565955501 / 562949953421312
                        else if v = 2 then 1 else 0)
              [3, 997, 0] 3 [NaN, NaN, NaN] = Some cost' \<and>
            cost' ! 0 = Finite (1098491 / 131072) \<and> cost' ! 1 = Finite 1 \<and>
            cost' ! 2 = Finite (6273517 / 524288))
   \<and> (\<exists>model'.
        ZopfliCostModelSetFromCommands
          (\<lambda>v. if v = 1000 then 5610237798857365 / 562949953421312
               else if v = 997 then 5607797641470207 / 562949953421312
               else if v = 3 then 892254565955501 / 562949953421312
               else if v = 2 then 1 else 0)
          cmd_copy_len 256 136 8
          \<lparr> model_cost_cmd = replicate 136 NaN, model_cost_dist = replicate 8 NaN,
            model_literal_costs = replicate 5 NaN, model_min_cost_cmd = NaN,
            model_num_bytes = 4 \<rparr>
          0 (\<lambda>i. 65) 0xFFFF
          [\<lparr> cmd_insert_len = 1, cmd_copy_len = 4, cmd_dist_extra = 0, cmd_cmd_prefix = 130,
             cmd_dist_prefix = 3 \<rparr>,
           \<lparr> cmd_insert_len = 0, cmd_copy_len = 4, cmd_dist_extra = 0, cmd_cmd_prefix = 130,
             cmd_dist_prefix = 4 \<rparr>,
           \<lparr> cmd_insert_len = 0, cmd_copy_len = 4, cmd_dist_extra = 0, cmd_cmd_prefix = 5,
             cmd_dist_prefix = 3 \<rparr>]
          0 = Some model' \<and>
        model_cost_cmd model' ! 130 = Finite 1 \<and>
        model_cost_cmd model' ! 0 = Finite (7518211 / 2097152) \<and>
        model_cost_dist model' ! 0 = Finite 3)"
proof -
  let ?F = "\<lambda>v :: size_t. if v = 1000 then 5610237798857365 / 562949953421312
               else if v = 997 then 5607797641470207 / 562949953421312
               else if v = 3 then 892254565955501 / 562949953421312
               else if v = 2 then 1 else (0 :: real)"
  let ?self = "\<lparr> model_cost_cmd = replicate 136 NaN, model_cost_dist = replicate 8 NaN,
            model_literal_costs = replicate 5 NaN, model_min_cost_cmd = NaN,
            model_num_bytes = 4 \<rparr>"
  let ?cs = "[\<lparr> cmd_insert_len = 1, cmd_copy_len = 4, cmd_dist_extra = 0, cmd_cmd_prefix = 130,
             cmd_dist_prefix = 3 \<rparr>,
           \<lparr> cmd_insert_len = 0, cmd_copy_len = 4, cmd_dist_extra = 0, cmd_cmd_prefix = 130,
             cmd_dist_prefix = 4 \<rparr>,
           \<lparr> cmd_insert_len = 0, cmd_copy_len = 4, cmd_dist_extra = 0, cmd_cmd_prefix = 5,
             cmd_dist_prefix = 3 \<rparr>]"
  have h1: "256 \<le> (256 :: nat)" by simp
  have h2: "(136 :: nat) < 2 ^ 64" by simp
  have h3: "136 \<le> length (model_cost_cmd ?self)" by simp
  have h4: "(8 :: nat) < 2 ^ 64" by simp
  have h5: "8 \<le> length (model_cost_dist ?self)" by simp
  have h6: "unat (model_num_bytes ?self) < length (model_literal_costs ?self)" by simp
  have h7: "\<forall>x \<in> set ?cs. unat (cmd_cmd_prefix x) < 136 \<and>
               (128 \<le> unat (cmd_cmd_prefix x) \<longrightarrow> unat (cmd_dist_prefix x) < 8)"
    by simp
  note c7 = C7_refit_cost_model[OF h1 h2 h3 h4 h5 h6 h7,
              of 3 "[3, 997, 0]" "[NaN, NaN, NaN]" ?F cmd_copy_len 0 "\<lambda>i. 65" "0xFFFF" 0]
  have s0: "symbol_cost ?F (take (unat (3 :: size_t)) [3, 997, 0]) 0 = Finite (1098491 / 131072)"
    by code_simp
  have s1: "symbol_cost ?F (take (unat (3 :: size_t)) [3, 997, 0]) 1 = Finite 1"
    by code_simp
  have s2: "symbol_cost ?F (take (unat (3 :: size_t)) [3, 997, 0]) 2 = Finite (6273517 / 524288)"
    by code_simp
  have first: "\<exists>cost'. SetCost ?F [3, 997, 0] 3 [NaN, NaN, NaN] = Some cost' \<and>
            cost' ! 0 = Finite (1098491 / 131072) \<and> cost' ! 1 = Finite 1 \<and>
            cost' ! 2 = Finite (6273517 / 524288)"
    using c7[THEN conjunct1] s0 s1 s2 by auto
  have c130: "symbol_cost ?F (command_histogram ?cs 136) 130 = Finite 1" by code_simp
  have c0: "symbol_cost ?F (command_histogram ?cs 136) 0 = Finite (7518211 / 2097152)"
    by code_simp
  have d0: "symbol_cost ?F (distance_histogram ?cs 8) 0 = Finite 3" by code_simp
  from c7[THEN conjunct2] obtain model' where m:
    "ZopfliCostModelSetFromCommands ?F cmd_copy_len 256 136 8 ?self 0 (\<lambda>i. 65) 0xFFFF ?cs 0
     = Some model'"
    "\<forall>c < 136. model_cost_cmd model' ! c = symbol_cost ?F (command_histogram ?cs 136) c"
    "\<forall>d < 8. model_cost_dist model' ! d = symbol_cost ?F (distance_histogram ?cs 8) d"
    by blast
  have "model_cost_cmd model' ! 130 = Finite 1"
    using m(2)[rule_format, of 130] c130 by simp
  moreover have "model_cost_cmd model' ! 0 = Finite (7518211 / 2097152)"
    using m(2)[rule_format, of 0] c0 by simp
  moreover have "model_cost_dist model' ! 0 = Finite 3"
    using m(3)[rule_format, of 0] d0 by simp
  ultimately show ?thesis using first m(1) by blast
qed

end
